theory Spec2Isabelle
  imports Complex_Main "HOL-Library.Word"
begin

section \<open>Values: strings, JSON, truthiness\<close>

text \<open>
  The server (\<^verbatim>\<open>server.js\<close>) is a WebSocket message handler over one global
  \<^verbatim>\<open>games\<close> map. A JavaScript string is a sequence of 16-bit code units.
  A JSON number is a double; the server only compares it with \<open>0\<close> and with an array
  length, so a number is modelled by the exact rational value of the double (\<^verbatim>\<open>-0\<close> is
  \<open>0\<close>; an overflowing literal, parsed to an infinity, behaves in every test made here as
  any other number beyond the array does; \<^verbatim>\<open>JSON.parse\<close> yields no \<^verbatim>\<open>NaN\<close>).
\<close>

type_synonym jsstring = "16 word list"
type_synonym uuid = nat
type_synonym sock = nat

definition str :: "string \<Rightarrow> jsstring" where
  "str s = map of_char s"

text \<open>\<^verbatim>\<open>String.prototype.trim\<close>: strips WhiteSpace and LineTerminator code units at
  both ends.\<close>

definition isWhiteSpace :: "16 word \<Rightarrow> bool" where
  "isWhiteSpace u \<longleftrightarrow>
     u = 0x9 \<or> u = 0xA \<or> u = 0xB \<or> u = 0xC \<or> u = 0xD \<or> u = 0x20 \<or> u = 0xA0 \<or>
     u = 0x1680 \<or> (0x2000 \<le> u \<and> u \<le> 0x200A) \<or> u = 0x2028 \<or> u = 0x2029 \<or>
     u = 0x202F \<or> u = 0x205F \<or> u = 0x3000 \<or> u = 0xFEFF"

definition trim :: "jsstring \<Rightarrow> jsstring" where
  "trim s = rev (dropWhile isWhiteSpace (rev (dropWhile isWhiteSpace s)))"

datatype json =
    JNull
  | JBool bool
  | JNum rat
  | JStr jsstring
  | JArr "json list"
  | JObj "(jsstring \<times> json) list"

text \<open>Reading a property of a parsed message; \<open>None\<close> is \<^verbatim>\<open>undefined\<close>. A repeated
  key of a JSON object keeps its last value. None of the names the server reads
  (type, role, question, options, code, name, choiceIndex) exists on a non-object.\<close>

fun getProp :: "json \<Rightarrow> jsstring \<Rightarrow> json option" where
  "getProp (JObj kvs) k = map_of (rev kvs) k"
| "getProp _ k = None"

fun truthy :: "json option \<Rightarrow> bool" where
  "truthy None = False"
| "truthy (Some JNull) = False"
| "truthy (Some (JBool b)) = b"
| "truthy (Some (JNum r)) = (r \<noteq> 0)"
| "truthy (Some (JStr s)) = (s \<noteq> [])"
| "truthy (Some (JArr xs)) = True"
| "truthy (Some (JObj kvs)) = True"

fun isArray :: "json option \<Rightarrow> bool" where
  "isArray (Some (JArr xs)) = True"
| "isArray _ = False"

fun elems :: "json option \<Rightarrow> json list" where
  "elems (Some (JArr xs)) = xs"
| "elems _ = []"

section \<open>Sessions, players, connections\<close>

datatype role = Host | Player
datatype phase = Lobby | Active | Ended
datatype ready = OPEN | CLOSING | CLOSED

record player =
  id_player :: uuid
  name :: jsstring
  socket :: sock
  hasVoted :: bool
  choiceIndex :: "rat option"

text \<open>\<^verbatim>\<open>game.players\<close> is a JavaScript \<^verbatim>\<open>Map\<close>, iterated in insertion order: an
  association list.\<close>

record game =
  code :: jsstring
  hostId :: uuid
  hostSocket :: sock
  question :: jsstring
  options :: "jsstring list"
  players :: "(uuid \<times> player) list"
  state :: phase

text \<open>The variables each connection's closure holds.\<close>

record conn =
  clientId :: uuid
  role :: "role option"
  currentGameCode :: "jsstring option"
  playerId :: "uuid option"

record server =
  games :: "jsstring \<rightharpoonup> game"
  conns :: "sock \<rightharpoonup> conn"
  sockets :: "sock \<rightharpoonup> ready"

definition init :: server where
  "init = \<lparr>games = Map.empty, conns = Map.empty, sockets = Map.empty\<rparr>"

section \<open>Outbound messages\<close>

datatype errmsg =
    InvalidJSON | UnknownRole
  | OnlyHostsCreate | NeedQuestionAndOptionsToStart | NeedTwoOptions
  | OnlyHostsUpdate | CreateBeforeUpdate | NeedQuestionAndOptions
  | OnlyHostsStart | CreateBeforeStart | AlreadyInProgress
  | OnlyHostsEnd | CreateBeforeEnd | NotRunning
  | OnlyPlayersJoin | NeedCodeAndName | NoGameFound
  | OnlyPlayersVote | JoinBeforeVoting | VotingNotOpen | NotPartOfGame
  | AlreadyVoted | InvalidOption | UnknownMessageType

fun errtext :: "errmsg \<Rightarrow> string" where
  "errtext InvalidJSON = ''Invalid JSON payload received.''"
| "errtext UnknownRole = ''Unknown role specified.''"
| "errtext OnlyHostsCreate = ''Only hosts can create games.''"
| "errtext NeedQuestionAndOptionsToStart =
     ''A question and at least two options are required to start a poll.''"
| "errtext NeedTwoOptions = ''Provide at least two non-empty answer options.''"
| "errtext OnlyHostsUpdate = ''Only hosts can update polls.''"
| "errtext CreateBeforeUpdate = ''Create a game before updating the poll.''"
| "errtext NeedQuestionAndOptions = ''A question and at least two options are required.''"
| "errtext OnlyHostsStart = ''Only hosts can start polls.''"
| "errtext CreateBeforeStart = ''Create a game before starting the poll.''"
| "errtext AlreadyInProgress = ''A poll is already in progress.''"
| "errtext OnlyHostsEnd = ''Only hosts can end polls.''"
| "errtext CreateBeforeEnd = ''Create a game before ending the poll.''"
| "errtext NotRunning = ''The poll is not currently running.''"
| "errtext OnlyPlayersJoin = ''Only players can join games.''"
| "errtext NeedCodeAndName = ''A game code and display name are required.''"
| "errtext NoGameFound = ''No game found with that code.''"
| "errtext OnlyPlayersVote = ''Only players can vote.''"
| "errtext JoinBeforeVoting = ''Join a game before voting.''"
| "errtext VotingNotOpen = ''Voting is not open at the moment.''"
| "errtext NotPartOfGame = ''You are not part of this game.''"
| "errtext AlreadyVoted = ''You have already voted in this poll.''"
| "errtext InvalidOption = ''Please select a valid option.''"
| "errtext UnknownMessageType = ''Unknown message type received.''"

text \<open>An element of the \<^verbatim>\<open>counts\<close> array: a number, \<^verbatim>\<open>NaN\<close>, or an empty slot.\<close>

datatype cell = Count nat | NaN | Hole

datatype payload =
    Error errmsg
  | Identified role
  | HostGameCreated jsstring jsstring "jsstring list"
  | HostPollUpdated jsstring "jsstring list"
  | HostPlayersUpdated "(uuid \<times> jsstring \<times> bool) list"
  | HostPollStarted
  | HostPollProgress "cell list"
  | HostPollResults "cell list"
  | PlayerJoined jsstring "jsstring option" "jsstring list option"
  | PollStart jsstring "jsstring list"
  | PlayerVoted rat
  | PollResults jsstring "jsstring list" "cell list"
  | PollReset
  | GameEnded

type_synonym outbox = "(sock \<times> payload) list"

text \<open>\<^verbatim>\<open>send\<close> writes only to a socket whose \<^verbatim>\<open>readyState\<close> is \<^verbatim>\<open>OPEN\<close>.\<close>

definition send :: "server \<Rightarrow> sock \<Rightarrow> payload \<Rightarrow> outbox" where
  "send s sk p = (if sockets s sk = Some OPEN then [(sk, p)] else [])"

definition broadcastToPlayers :: "server \<Rightarrow> game \<Rightarrow> payload \<Rightarrow> outbox" where
  "broadcastToPlayers s g p = concat (map (\<lambda>(k, pl). send s (socket pl) p) (players g))"

definition serializePlayers :: "game \<Rightarrow> (uuid \<times> jsstring \<times> bool) list" where
  "serializePlayers g = map (\<lambda>(k, pl). (id_player pl, name pl, hasVoted pl)) (players g)"

section \<open>The tally\<close>

text \<open>
  \<^verbatim>\<open>counts[player.choiceIndex] += 1\<close>. A number names an array element only when it
  is a non-negative integer below \<open>2^32 - 1\<close>. Inside the array the element is
  incremented; past its end JavaScript extends the array with empty slots and stores
  \<^verbatim>\<open>undefined + 1 = NaN\<close>. Any other number sets a property beside the elements, which
  the array's length and its JSON serialisation do not show: the elements are unchanged.
\<close>

definition isArrayIndex :: "rat \<Rightarrow> bool" where
  "isArrayIndex c \<longleftrightarrow> 0 \<le> c \<and> of_int \<lfloor>c\<rfloor> = c \<and> c < 4294967295"

fun incr :: "cell \<Rightarrow> cell" where
  "incr (Count k) = Count (k + 1)"
| "incr NaN = NaN"
| "incr Hole = NaN"

definition bump :: "cell list \<Rightarrow> rat \<Rightarrow> cell list" where
  "bump counts c =
     (if isArrayIndex c then
        (let n = nat \<lfloor>c\<rfloor> in
         if n < length counts then counts[n := incr (counts ! n)]
         else counts @ replicate (n - length counts) Hole @ [NaN])
      else counts)"

definition countVotes :: "game \<Rightarrow> cell list" where
  "countVotes g =
     foldl (\<lambda>counts (k, pl). case choiceIndex pl of None \<Rightarrow> counts | Some c \<Rightarrow> bump counts c)
       (map (\<lambda>_. Count 0) (options g)) (players g)"

section \<open>Handlers\<close>

text \<open>
  A handler either returns, with the new state and the frames it wrote, or throws a
  \<^verbatim>\<open>TypeError\<close> nobody catches, which ends the server process (\<open>Crash\<close>), or, in
  \<^verbatim>\<open>generateGameCode\<close>, is still drawing codes when the draws it was given run out
  (\<open>Hang\<close>).
\<close>

datatype outcome = Crash | Hang | Done server outbox

fun digits :: "nat \<Rightarrow> nat list" where
  "digits n = (if n < 10 then [n] else digits (n div 10) @ [n mod 10])"

definition toString :: "nat \<Rightarrow> jsstring" where
  "toString n = map (\<lambda>d. 48 + of_nat d) (digits n)"

text \<open>The \<^verbatim>\<open>do ... while (games.has(code))\<close> loop; each element of \<open>draws\<close> is one value
  of \<^verbatim>\<open>Math.floor(100000 + Math.random() * 900000)\<close>.\<close>

fun generateGameCode :: "(jsstring \<rightharpoonup> game) \<Rightarrow> nat list \<Rightarrow> jsstring option" where
  "generateGameCode gs [] = None"
| "generateGameCode gs (d # ds) =
     (if gs (toString d) \<noteq> None then generateGameCode gs ds else Some (toString d))"

definition setConn :: "server \<Rightarrow> sock \<Rightarrow> conn \<Rightarrow> server" where
  "setConn s sk c = s\<lparr>conns := (conns s)(sk \<mapsto> c)\<rparr>"

definition setGame :: "server \<Rightarrow> jsstring \<Rightarrow> game \<Rightarrow> server" where
  "setGame s cd g = s\<lparr>games := (games s)(cd \<mapsto> g)\<rparr>"

text \<open>The guard \<^verbatim>\<open>!currentGameCode || !games.has(currentGameCode)\<close> together with the
  \<^verbatim>\<open>games.get(currentGameCode)\<close> that follows it.\<close>

definition currentGame :: "server \<Rightarrow> conn \<Rightarrow> (jsstring \<times> game) option" where
  "currentGame s c =
     (case currentGameCode c of
        None \<Rightarrow> None
      | Some cd \<Rightarrow> if cd = [] then None else map_option (Pair cd) (games s cd))"

text \<open>\<^verbatim>\<open>['host', 'player'].includes(message.role)\<close>\<close>

fun parseRole :: "json option \<Rightarrow> role option" where
  "parseRole (Some (JStr r)) =
     (if r = str ''host'' then Some Host else if r = str ''player'' then Some Player else None)"
| "parseRole _ = None"

text \<open>\<^verbatim>\<open>options.map((option) => option.trim()).filter(Boolean)\<close>; \<open>None\<close> when an element
  is not a string, where \<^verbatim>\<open>option.trim\<close> is not a function.\<close>

fun trimAll :: "json list \<Rightarrow> jsstring list option" where
  "trimAll [] = Some []"
| "trimAll (JStr x # xs) = map_option (Cons (trim x)) (trimAll xs)"
| "trimAll (_ # xs) = None"

definition trimmedOptions :: "json list \<Rightarrow> jsstring list option" where
  "trimmedOptions xs = map_option (filter (\<lambda>x. x \<noteq> [])) (trimAll xs)"

definition resetVotes :: "game \<Rightarrow> game" where
  "resetVotes g =
     g\<lparr>players := map (\<lambda>(k, pl). (k, pl\<lparr>hasVoted := False, choiceIndex := None\<rparr>)) (players g)\<rparr>"

text \<open>\<^verbatim>\<open>Map.prototype.set\<close>, \<^verbatim>\<open>get\<close> and \<^verbatim>\<open>delete\<close> on the roster. \<^verbatim>\<open>get\<close> takes
  the connection's \<^verbatim>\<open>playerId\<close>, which is \<^verbatim>\<open>null\<close> before a join, and returns the
  entry with its key, so that the assignments to the player object found are written
  back under that key.\<close>

fun mapSet :: "('k \<times> 'v) list \<Rightarrow> 'k \<Rightarrow> 'v \<Rightarrow> ('k \<times> 'v) list" where
  "mapSet [] k v = [(k, v)]"
| "mapSet ((k', v') # kvs) k v = (if k' = k then (k, v) # kvs else (k', v') # mapSet kvs k v)"

definition mapGet :: "('k \<times> 'v) list \<Rightarrow> 'k option \<Rightarrow> ('k \<times> 'v) option" where
  "mapGet kvs k = (case k of None \<Rightarrow> None | Some k' \<Rightarrow> map_option (Pair k') (map_of kvs k'))"

definition mapDelete :: "('k \<times> 'v) list \<Rightarrow> 'k \<Rightarrow> ('k \<times> 'v) list" where
  "mapDelete kvs k = filter (\<lambda>(k', v). k' \<noteq> k) kvs"

definition identify :: "server \<Rightarrow> sock \<Rightarrow> conn \<Rightarrow> json \<Rightarrow> outcome" where
  "identify s sk c m =
     (case parseRole (getProp m (str ''role'')) of
        None \<Rightarrow> Done s (send s sk (Error UnknownRole))
      | Some r \<Rightarrow> Done (setConn s sk (c\<lparr>role := Some r\<rparr>)) (send s sk (Identified r)))"

definition createGame :: "server \<Rightarrow> sock \<Rightarrow> conn \<Rightarrow> json \<Rightarrow> nat list \<Rightarrow> outcome" where
  "createGame s sk c m draws =
     (if role c \<noteq> Some Host then Done s (send s sk (Error OnlyHostsCreate))
      else
        let q = getProp m (str ''question''); os = getProp m (str ''options'') in
        if \<not> truthy q \<or> \<not> isArray os \<or> length (elems os) < 2
        then Done s (send s sk (Error NeedQuestionAndOptionsToStart))
        else
          (case trimmedOptions (elems os) of
             None \<Rightarrow> Crash
           | Some tos \<Rightarrow>
               if length tos < 2 then Done s (send s sk (Error NeedTwoOptions))
               else
                 (case generateGameCode (games s) draws of
                    None \<Rightarrow> Hang
                  | Some cd \<Rightarrow>
                      (case q of
                         Some (JStr qs) \<Rightarrow>
                           let g = \<lparr>code = cd, hostId = clientId c, hostSocket = sk,
                                    question = trim qs, options = tos, players = [],
                                    state = Lobby\<rparr>
                           in Done (setConn (setGame s cd g) sk (c\<lparr>currentGameCode := Some cd\<rparr>))
                                (send s sk (HostGameCreated cd (question g) (options g)))
                       | _ \<Rightarrow> Crash))))"

definition updatePoll :: "server \<Rightarrow> sock \<Rightarrow> conn \<Rightarrow> json \<Rightarrow> outcome" where
  "updatePoll s sk c m =
     (if role c \<noteq> Some Host then Done s (send s sk (Error OnlyHostsUpdate))
      else
        (case currentGame s c of
           None \<Rightarrow> Done s (send s sk (Error CreateBeforeUpdate))
         | Some (cd, game0) \<Rightarrow>
             let q = getProp m (str ''question''); os = getProp m (str ''options'') in
             if \<not> truthy q \<or> \<not> isArray os \<or> length (elems os) < 2
             then Done s (send s sk (Error NeedQuestionAndOptions))
             else
               (case trimmedOptions (elems os) of
                  None \<Rightarrow> Crash
                | Some tos \<Rightarrow>
                    if length tos < 2 then Done s (send s sk (Error NeedTwoOptions))
                    else
                      (case q of
                         Some (JStr qs) \<Rightarrow>
                           let g = resetVotes
                                     (game0\<lparr>question := trim qs, options := tos, state := Lobby\<rparr>)
                           in Done (setGame s cd g)
                                (send s sk (HostPollUpdated (question g) (options g)) @
                                 send s sk (HostPlayersUpdated (serializePlayers g)) @
                                 broadcastToPlayers s g PollReset)
                       | _ \<Rightarrow> Crash))))"

definition startPoll :: "server \<Rightarrow> sock \<Rightarrow> conn \<Rightarrow> outcome" where
  "startPoll s sk c =
     (if role c \<noteq> Some Host then Done s (send s sk (Error OnlyHostsStart))
      else
        (case currentGame s c of
           None \<Rightarrow> Done s (send s sk (Error CreateBeforeStart))
         | Some (cd, game0) \<Rightarrow>
             if state game0 = Active then Done s (send s sk (Error AlreadyInProgress))
             else
               let g = resetVotes (game0\<lparr>state := Active\<rparr>)
               in Done (setGame s cd g)
                    (send s sk (HostPlayersUpdated (serializePlayers g)) @
                     broadcastToPlayers s g (PollStart (question g) (options g)) @
                     send s sk HostPollStarted)))"

definition endPoll :: "server \<Rightarrow> sock \<Rightarrow> conn \<Rightarrow> outcome" where
  "endPoll s sk c =
     (if role c \<noteq> Some Host then Done s (send s sk (Error OnlyHostsEnd))
      else
        (case currentGame s c of
           None \<Rightarrow> Done s (send s sk (Error CreateBeforeEnd))
         | Some (cd, game0) \<Rightarrow>
             if state game0 \<noteq> Active then Done s (send s sk (Error NotRunning))
             else
               let g = game0\<lparr>state := Ended\<rparr>; results = countVotes g
               in Done (setGame s cd g)
                    (send s sk (HostPollResults results) @
                     broadcastToPlayers s g (PollResults (question g) (options g) results))))"

text \<open>\<^verbatim>\<open>games.get(code)\<close> for the \<^verbatim>\<open>code\<close> of a message: the keys of \<^verbatim>\<open>games\<close> are
  strings, and a \<^verbatim>\<open>Map\<close> finds a key only by a value of the same type.\<close>

fun gamesGet :: "server \<Rightarrow> json option \<Rightarrow> (jsstring \<times> game) option" where
  "gamesGet s (Some (JStr cd)) = map_option (Pair cd) (games s cd)"
| "gamesGet s _ = None"

definition join :: "server \<Rightarrow> sock \<Rightarrow> conn \<Rightarrow> json \<Rightarrow> uuid \<Rightarrow> outcome" where
  "join s sk c m u =
     (if role c \<noteq> Some Player then Done s (send s sk (Error OnlyPlayersJoin))
      else
        let cdv = getProp m (str ''code''); nm = getProp m (str ''name'') in
        if \<not> truthy cdv \<or> \<not> truthy nm then Done s (send s sk (Error NeedCodeAndName))
        else
          (case gamesGet s cdv of
            None \<Rightarrow> Done s (send s sk (Error NoGameFound))
          | Some (cd, game0) \<Rightarrow>
              (case nm of
                 Some (JStr n) \<Rightarrow>
                   let pl = \<lparr>id_player = u, name = take 40 (trim n), socket = sk,
                             hasVoted = False, choiceIndex = None\<rparr>;
                       g = game0\<lparr>players := mapSet (players game0) u pl\<rparr>;
                       act = (state g = Active)
                   in Done (setConn (setGame s cd g) sk
                              (c\<lparr>currentGameCode := Some cd, playerId := Some u\<rparr>))
                        (send s sk (PlayerJoined cd (if act then Some (question g) else None)
                                      (if act then Some (options g) else None)) @
                         send s (hostSocket g) (HostPlayersUpdated (serializePlayers g)) @
                         (if act then send s sk (PollStart (question g) (options g)) else []))
               | _ \<Rightarrow> Crash)))"

definition vote :: "server \<Rightarrow> sock \<Rightarrow> conn \<Rightarrow> json \<Rightarrow> outcome" where
  "vote s sk c m =
     (if role c \<noteq> Some Player then Done s (send s sk (Error OnlyPlayersVote))
      else
        (case currentGame s c of
          None \<Rightarrow> Done s (send s sk (Error JoinBeforeVoting))
        | Some (cd, game0) \<Rightarrow>
            if state game0 \<noteq> Active then Done s (send s sk (Error VotingNotOpen))
            else
              (case mapGet (players game0) (playerId c) of
                None \<Rightarrow> Done s (send s sk (Error NotPartOfGame))
              | Some (k, pl) \<Rightarrow>
                  if hasVoted pl then Done s (send s sk (Error AlreadyVoted))
                  else
                    (case getProp m (str ''choiceIndex'') of
                       Some (JNum ci) \<Rightarrow>
                         if ci < 0 \<or> ci \<ge> of_nat (length (options game0))
                         then Done s (send s sk (Error InvalidOption))
                         else
                           let g = game0\<lparr>players :=
                                     mapSet (players game0) k
                                       (pl\<lparr>hasVoted := True, choiceIndex := Some ci\<rparr>)\<rparr>
                           in Done (setGame s cd g)
                                (send s sk (PlayerVoted ci) @
                                 send s (hostSocket g) (HostPlayersUpdated (serializePlayers g)) @
                                 send s (hostSocket g) (HostPollProgress (countVotes g)))
                     | _ \<Rightarrow> Done s (send s sk (Error InvalidOption))))))"

section \<open>The connection's listeners\<close>

definition unknownType :: "server \<Rightarrow> sock \<Rightarrow> outcome" where
  "unknownType s sk = Done s (send s sk (Error UnknownMessageType))"

text \<open>The \<^verbatim>\<open>message\<close> listener. \<open>raw\<close> is the result of \<^verbatim>\<open>JSON.parse\<close>, \<open>None\<close> when it
  throws; \<open>draws\<close> and \<open>u\<close> are the random values the handler may consume. Reading
  \<^verbatim>\<open>message.type\<close> of \<^verbatim>\<open>null\<close> throws.\<close>

definition onMessage :: "server \<Rightarrow> sock \<Rightarrow> json option \<Rightarrow> nat list \<Rightarrow> uuid \<Rightarrow> outcome" where
  "onMessage s sk raw draws u =
     (case conns s sk of
        None \<Rightarrow> Done s []
      | Some c \<Rightarrow>
          (case raw of
             None \<Rightarrow> Done s (send s sk (Error InvalidJSON))
           | Some JNull \<Rightarrow> Crash
           | Some m \<Rightarrow>
               (case getProp m (str ''type'') of
                  Some (JStr t) \<Rightarrow>
                    if t = str ''identify'' then identify s sk c m
                    else if t = str ''host:create_game'' then createGame s sk c m draws
                    else if t = str ''host:update_poll'' then updatePoll s sk c m
                    else if t = str ''host:start_poll'' then startPoll s sk c
                    else if t = str ''host:end_poll'' then endPoll s sk c
                    else if t = str ''player:join'' then join s sk c m u
                    else if t = str ''player:vote'' then vote s sk c m
                    else unknownType s sk
                | _ \<Rightarrow> unknownType s sk)))"

definition destroyGame :: "server \<Rightarrow> jsstring \<Rightarrow> server \<times> outbox" where
  "destroyGame s cd =
     (case games s cd of
        None \<Rightarrow> (s, [])
      | Some g \<Rightarrow> (s\<lparr>games := (games s)(cd := None)\<rparr>, broadcastToPlayers s g GameEnded))"

definition closeHost :: "server \<Rightarrow> conn \<Rightarrow> server \<times> outbox" where
  "closeHost s c =
     (case currentGameCode c of
        None \<Rightarrow> (s, [])
      | Some cd \<Rightarrow> if role c = Some Host \<and> cd \<noteq> [] then destroyGame s cd else (s, []))"

definition closePlayer :: "server \<Rightarrow> conn \<Rightarrow> server \<times> outbox" where
  "closePlayer s c =
     (if role c = Some Player then
        (case currentGame s c of
           None \<Rightarrow> (s, [])
         | Some (cd, game0) \<Rightarrow>
             (case playerId c of
                None \<Rightarrow> (s, [])
              | Some k \<Rightarrow>
                  let g = game0\<lparr>players := mapDelete (players game0) k\<rparr>
                  in (setGame s cd g,
                      send s (hostSocket g) (HostPlayersUpdated (serializePlayers g)))))
      else (s, []))"

text \<open>The \<^verbatim>\<open>close\<close> listener: its two \<^verbatim>\<open>if\<close> statements in turn.\<close>

definition onClose :: "server \<Rightarrow> sock \<Rightarrow> outcome" where
  "onClose s sk =
     (case conns s sk of
        None \<Rightarrow> Done s []
      | Some c \<Rightarrow>
          (case closeHost s c of
             (s1, out1) \<Rightarrow> (case closePlayer s1 c of (s2, out2) \<Rightarrow> Done s2 (out1 @ out2))))"

section \<open>Events and reachable states\<close>

text \<open>
  What the transport does to the server: a new connection (its socket open, its closure
  variables \<^verbatim>\<open>null\<close>), a frame on a connection, a socket that starts closing, and a
  socket that has closed, at which point its \<^verbatim>\<open>close\<close> listener runs.
\<close>

datatype event =
    Connection sock uuid
  | Message sock "json option" "nat list" uuid
  | Closing sock
  | Close sock

fun step :: "server \<Rightarrow> event \<Rightarrow> outcome" where
  "step s (Connection sk cid) =
     Done (s\<lparr>conns := (conns s)(sk \<mapsto>
                \<lparr>clientId = cid, role = None, currentGameCode = None, playerId = None\<rparr>),
              sockets := (sockets s)(sk \<mapsto> OPEN)\<rparr>) []"
| "step s (Message sk raw draws u) = onMessage s sk raw draws u"
| "step s (Closing sk) = Done (s\<lparr>sockets := (sockets s)(sk \<mapsto> CLOSING)\<rparr>) []"
| "step s (Close sk) = onClose (s\<lparr>sockets := (sockets s)(sk \<mapsto> CLOSED)\<rparr>) sk"

fun run :: "server \<Rightarrow> event list \<Rightarrow> outcome" where
  "run s [] = Done s []"
| "run s (e # es) =
     (case step s e of
        Done s' out \<Rightarrow>
          (case run s' es of Done s'' out' \<Rightarrow> Done s'' (out @ out') | Crash \<Rightarrow> Crash | Hang \<Rightarrow> Hang)
      | Crash \<Rightarrow> Crash
      | Hang \<Rightarrow> Hang)"

text \<open>
  An event can happen in a state when the transport allows it: a new connection brings
  a socket not seen before, frames arrive only on a socket that has not closed, and a
  socket closes once. The identifier \<^verbatim>\<open>randomUUID()\<close> returns is taken to be unused.
\<close>

definition usedIds :: "server \<Rightarrow> uuid set" where
  "usedIds s = {u. \<exists>cd g. games s cd = Some g \<and> u \<in> fst ` set (players g)} \<union>
               {u. \<exists>sk c. conns s sk = Some c \<and> playerId c = Some u}"

fun enabled :: "server \<Rightarrow> event \<Rightarrow> bool" where
  "enabled s (Connection sk cid) = (sockets s sk = None)"
| "enabled s (Message sk raw draws u) =
     ((sockets s sk = Some OPEN \<or> sockets s sk = Some CLOSING) \<and> u \<notin> usedIds s)"
| "enabled s (Closing sk) = (sockets s sk = Some OPEN)"
| "enabled s (Close sk) = (sockets s sk = Some OPEN \<or> sockets s sk = Some CLOSING)"

inductive reachable :: "server \<Rightarrow> bool" where
  reachable_init: "reachable init"
| reachable_step: "reachable s \<Longrightarrow> enabled s e \<Longrightarrow> step s e = Done s' out \<Longrightarrow> reachable s'"

text \<open>
  For the proofs of invariants: the ways in which one event can change a session that
  stays in the store. Each rule is the assignment sequence of one handler.
\<close>

inductive changes :: "event \<Rightarrow> game \<Rightarrow> game \<Rightarrow> bool" where
  by_update:
    "trimmedOptions (elems (getProp m (str ''options''))) = Some tos \<Longrightarrow> 2 \<le> length tos \<Longrightarrow>
     changes (Message sk (Some m) d u) g
       (resetVotes (g\<lparr>question := q, options := tos, state := Lobby\<rparr>))"
| by_start: "changes e g (resetVotes (g\<lparr>state := Active\<rparr>))"
| by_end: "changes e g (g\<lparr>state := Ended\<rparr>)"
| by_join:
    "id_player pl = u \<Longrightarrow> \<not> hasVoted pl \<Longrightarrow> choiceIndex pl = None \<Longrightarrow>
     changes (Message sk raw d u) g (g\<lparr>players := mapSet (players g) u pl\<rparr>)"
| by_vote:
    "map_of (players g) k = Some pl \<Longrightarrow> 0 \<le> ci \<Longrightarrow> ci < of_nat (length (options g)) \<Longrightarrow>
     changes e g
       (g\<lparr>players := mapSet (players g) k (pl\<lparr>hasVoted := True, choiceIndex := Some ci\<rparr>)\<rparr>)"
| by_leave: "changes e g (g\<lparr>players := mapDelete (players g) k\<rparr>)"

definition created :: "event \<Rightarrow> game \<Rightarrow> bool" where
  "created e g \<longleftrightarrow>
     players g = [] \<and>
     (\<exists>sk m d u. e = Message sk (Some m) d u \<and> 2 \<le> length (options g) \<and>
        trimmedOptions (elems (getProp m (str ''options''))) = Some (options g))"

inductive effect :: "event \<Rightarrow> server \<Rightarrow> server \<Rightarrow> bool" where
  same: "games s' = games s \<Longrightarrow> effect e s s'"
| fresh: "games s cd = None \<Longrightarrow> created e g \<Longrightarrow> games s' = (games s)(cd \<mapsto> g) \<Longrightarrow> effect e s s'"
| changed:
    "games s cd = Some g \<Longrightarrow> changes e g g' \<Longrightarrow> games s' = (games s)(cd \<mapsto> g') \<Longrightarrow> effect e s s'"
| removed: "games s' = (games s)(cd := None) \<Longrightarrow> effect e s s'"

text \<open>What every session in a reachable store satisfies.\<close>

definition entryOK :: "game \<Rightarrow> uuid \<Rightarrow> player \<Rightarrow> bool" where
  "entryOK g k pl \<longleftrightarrow>
     id_player pl = k \<and> (hasVoted pl \<longleftrightarrow> choiceIndex pl \<noteq> None) \<and>
     (\<forall>ci. choiceIndex pl = Some ci \<longrightarrow> 0 \<le> ci \<and> ci < of_nat (length (options g)))"

definition wellFormed :: "game \<Rightarrow> bool" where
  "wellFormed g \<longleftrightarrow>
     2 \<le> length (options g) \<and> (\<forall>x \<in> set (options g). x \<noteq> [] \<and> trim x = x) \<and>
     distinct (map fst (players g)) \<and> (\<forall>(k, pl) \<in> set (players g). entryOK g k pl)"

fun runs :: "server \<Rightarrow> event list \<Rightarrow> bool" where
  "runs s [] = True"
| "runs s (e # es) =
     (enabled s e \<and> (case step s e of Done s' out \<Rightarrow> runs s' es | Crash \<Rightarrow> False | Hang \<Rightarrow> False))"

fun stateOf :: "outcome \<Rightarrow> server" where
  "stateOf (Done s out) = s"
| "stateOf Crash = init"
| "stateOf Hang = init"

fun framesOf :: "outcome \<Rightarrow> outbox" where
  "framesOf (Done s out) = out"
| "framesOf Crash = []"
| "framesOf Hang = []"

fun returned :: "outcome \<Rightarrow> bool" where
  "returned (Done s out) = True"
| "returned Crash = False"
| "returned Hang = False"

section \<open>Frames and runs used as examples\<close>

definition frame :: "string \<Rightarrow> (string \<times> json) list \<Rightarrow> json" where
  "frame t kvs = JObj ((str ''type'', JStr (str t)) # map (\<lambda>(k, v). (str k, v)) kvs)"

definition identifyFrame :: "string \<Rightarrow> json" where
  "identifyFrame r = frame ''identify'' [(''role'', JStr (str r))]"

definition pollFrame :: "string \<Rightarrow> string \<Rightarrow> string list \<Rightarrow> json" where
  "pollFrame t q os =
     frame t [(''question'', JStr (str q)), (''options'', JArr (map (JStr \<circ> str) os))]"

definition joinFrame :: "string \<Rightarrow> string \<Rightarrow> json" where
  "joinFrame cd n = frame ''player:join'' [(''code'', JStr (str cd)), (''name'', JStr (str n))]"

definition voteFrame :: "rat \<Rightarrow> json" where
  "voteFrame ci = frame ''player:vote'' [(''choiceIndex'', JNum ci)]"

text \<open>A host on socket 1 creates a poll with the options Red and Blue and draws the code
  123456; a player on socket 2 joins it as Ann and is given the identifier 7.\<close>

definition hostUp :: "event list" where
  "hostUp =
     [Connection 1 10,
      Message 1 (Some (identifyFrame ''host'')) [] 0,
      Message 1 (Some (pollFrame ''host:create_game'' ''Pick'' [''Red'', ''Blue''])) [123456] 0]"

definition playerUp :: "event list" where
  "playerUp =
     [Connection 2 20,
      Message 2 (Some (identifyFrame ''player'')) [] 0,
      Message 2 (Some (joinFrame ''123456'' ''Ann'')) [] 7]"

definition startPollEv :: event where
  "startPollEv = Message 1 (Some (frame ''host:start_poll'' [])) [] 0"

definition endPollEv :: event where
  "endPollEv = Message 1 (Some (frame ''host:end_poll'' [])) [] 0"

definition ann :: player where
  "ann = \<lparr>id_player = 7, name = str ''Ann'', socket = 2, hasVoted = False, choiceIndex = None\<rparr>"

definition hostIdentified :: "event list" where
  "hostIdentified = [Connection 1 10, Message 1 (Some (identifyFrame ''host'')) [] 0]"

definition voteEv :: "rat \<Rightarrow> event" where
  "voteEv ci = Message 2 (Some (voteFrame ci)) [] 0"

text \<open>A round in which Ann votes for the index \<open>1/2\<close>, sent as
  \<^verbatim>\<open>{"type":"player:vote","choiceIndex":0.5}\<close>.\<close>

definition fractionalRound :: "event list" where
  "fractionalRound = hostUp @ playerUp @ [startPollEv, voteEv (1 / 2), endPollEv]"

text \<open>A round in which Ann votes for Red and the poll is still open.\<close>

definition openRound :: "event list" where
  "openRound = hostUp @ playerUp @ [startPollEv, voteEv 0]"

text \<open>The host creates a second session on the same connection, then disconnects.\<close>

definition twoSessions :: "event list" where
  "twoSessions =
     hostUp @ playerUp @
     [Message 1 (Some (pollFrame ''host:create_game'' ''Again'' [''Yes'', ''No''])) [222222] 0,
      Close 1]"

text \<open>A question of three spaces, on create and on update.\<close>

definition blankCreate :: "event list" where
  "blankCreate =
     hostIdentified @
     [Message 1 (Some (pollFrame ''host:create_game'' ''   '' [''Red'', ''Blue''])) [123456] 0]"

definition blankUpdate :: "event list" where
  "blankUpdate =
     hostUp @ [Message 1 (Some (pollFrame ''host:update_poll'' ''   '' [''Red'', ''Blue''])) [] 0]"


definition reidentify :: "event list" where
  "reidentify = hostIdentified @ [Message 1 (Some (identifyFrame ''player'')) [] 0]"

definition joinTwice :: "event list" where
  "joinTwice = hostUp @ playerUp @ [Message 2 (Some (joinFrame ''123456'' ''Ann'')) [] 8]"


text \<open>A second host, on socket 3, holds the session 654321 beside the first.\<close>

definition twoHosts :: "event list" where
  "twoHosts =
     hostUp @
     [Connection 3 30,
      Message 3 (Some (identifyFrame ''host'')) [] 0,
      Message 3 (Some (pollFrame ''host:create_game'' ''Other'' [''Yes'', ''No''])) [654321] 0] @
     playerUp"

section \<open>Dispatch and basic facts\<close>

lemma onMessage_typed:
  assumes "conns s sk = Some c" and "getProp m (str ''type'') = Some (JStr t)"
  shows "onMessage s sk (Some m) d u =
    (if t = str ''identify'' then identify s sk c m
     else if t = str ''host:create_game'' then createGame s sk c m d
     else if t = str ''host:update_poll'' then updatePoll s sk c m
     else if t = str ''host:start_poll'' then startPoll s sk c
     else if t = str ''host:end_poll'' then endPoll s sk c
     else if t = str ''player:join'' then join s sk c m u
     else if t = str ''player:vote'' then vote s sk c m
     else unknownType s sk)"
  using assms by (cases m) (simp_all add: onMessage_def)

lemma onMessage_start_poll:
  "conns s sk = Some c \<Longrightarrow> getProp m (str ''type'') = Some (JStr (str ''host:start_poll'')) \<Longrightarrow>
   onMessage s sk (Some m) d u = startPoll s sk c"
  by (simp add: onMessage_typed) (simp add: str_def)

lemma onMessage_update_poll:
  "conns s sk = Some c \<Longrightarrow> getProp m (str ''type'') = Some (JStr (str ''host:update_poll'')) \<Longrightarrow>
   onMessage s sk (Some m) d u = updatePoll s sk c m"
  by (simp add: onMessage_typed) (simp add: str_def)


lemma onMessage_join:
  "conns s sk = Some c \<Longrightarrow> getProp m (str ''type'') = Some (JStr (str ''player:join'')) \<Longrightarrow>
   onMessage s sk (Some m) d u = join s sk c m u"
  by (simp add: onMessage_typed) (simp add: str_def)

lemma resetVotes_keys: "map fst (players (resetVotes g)) = map fst (players g)"
  by (simp add: resetVotes_def case_prod_unfold comp_def)

lemma resetVotes_cleared:
  "(k, pl) \<in> set (players (resetVotes g)) \<Longrightarrow> \<not> hasVoted pl \<and> choiceIndex pl = None"
  by (auto simp: resetVotes_def)

lemma concat_send_eq:
  "concat (map (\<lambda>(k, pl). send s (socket pl) p) kps) =
     map (\<lambda>kp. (socket (snd kp), p)) (filter (\<lambda>kp. sockets s (socket (snd kp)) = Some OPEN) kps)"
  by (induction kps) (auto simp: send_def)

lemma broadcastToPlayers_eq:
  "broadcastToPlayers s g p =
     map (\<lambda>kp. (socket (snd kp), p)) (filter (\<lambda>kp. sockets s (socket (snd kp)) = Some OPEN) (players g))"
  unfolding broadcastToPlayers_def by (rule concat_send_eq)

lemma trimAll_length: "trimAll xs = Some ys \<Longrightarrow> length ys = length xs"
  by (induction xs arbitrary: ys rule: trimAll.induct) auto

lemma trimmedOptions_length: "trimmedOptions xs = Some tos \<Longrightarrow> length tos \<le> length xs"
  by (auto simp: trimmedOptions_def dest!: trimAll_length intro: le_trans [OF length_filter_le])

lemma identify_role:
  "identify s sk c m = Done s' out \<Longrightarrow> conns s sk = Some c \<Longrightarrow>
   map_option role (conns s' sk') =
     (if sk' = sk \<and> parseRole (getProp m (str ''role'')) \<noteq> None
      then Some (parseRole (getProp m (str ''role''))) else map_option role (conns s sk'))"
  by (auto simp: identify_def setConn_def split: option.splits)

lemma createGame_role:
  "createGame s sk c m d = Done s' out \<Longrightarrow> conns s sk = Some c \<Longrightarrow>
   map_option role (conns s' sk') = map_option role (conns s sk')"
  by (auto simp: createGame_def setConn_def setGame_def Let_def
      split: if_splits option.splits json.splits)

lemma updatePoll_conns: "updatePoll s sk c m = Done s' out \<Longrightarrow> conns s' = conns s"
  by (auto simp: updatePoll_def setGame_def Let_def split: if_splits option.splits json.splits)

lemma startPoll_conns: "startPoll s sk c = Done s' out \<Longrightarrow> conns s' = conns s"
  by (auto simp: startPoll_def setGame_def Let_def split: if_splits option.splits)

lemma endPoll_conns: "endPoll s sk c = Done s' out \<Longrightarrow> conns s' = conns s"
  by (auto simp: endPoll_def setGame_def Let_def split: if_splits option.splits)

lemma vote_conns: "vote s sk c m = Done s' out \<Longrightarrow> conns s' = conns s"
  by (auto simp: vote_def setGame_def Let_def split: if_splits option.splits json.splits)

lemma join_role:
  "join s sk c m u = Done s' out \<Longrightarrow> conns s sk = Some c \<Longrightarrow>
   map_option role (conns s' sk') = map_option role (conns s sk')"
  by (auto simp: join_def setConn_def setGame_def Let_def
      split: if_splits option.splits json.splits)

section \<open>What one event does to the store\<close>

lemma generateGameCode_free: "generateGameCode gs ds = Some cd \<Longrightarrow> gs cd = None"
  by (induction ds) (auto split: if_splits)

lemma effect_setGame: "games s cd = Some g \<Longrightarrow> changes e g g' \<Longrightarrow> effect e s (setGame s cd g')"
  by (rule changed) (auto simp: setGame_def)

lemma effect_setConn: "effect e s s' \<Longrightarrow> effect e s (setConn s' sk c)"
  by (auto elim!: effect.cases intro: effect.intros simp: setConn_def)

lemma createGame_Done:
  assumes "createGame s sk c m d = Done s' out"
  shows "s' = s \<or> (\<exists>tos cd qs. trimmedOptions (elems (getProp m (str ''options''))) = Some tos \<and>
     2 \<le> length tos \<and> generateGameCode (games s) d = Some cd \<and>
     s' = setConn (setGame s cd \<lparr>code = cd, hostId = clientId c, hostSocket = sk,
                                  question = trim qs, options = tos, players = [],
                                  state = Lobby\<rparr>) sk (c\<lparr>currentGameCode := Some cd\<rparr>))"
  using assms unfolding createGame_def Let_def
  by (auto split: if_splits option.splits json.splits)

lemma createGame_effect:
  assumes "createGame s sk c m d = Done s' out"
  shows "effect (Message sk (Some m) d u) s s'"
  using createGame_Done [OF assms]
proof (elim disjE exE conjE)
  assume "s' = s" then show ?thesis by (simp add: same)
next
  fix tos cd qs
  assume "trimmedOptions (elems (getProp m (str ''options''))) = Some tos" "2 \<le> length tos"
    "generateGameCode (games s) d = Some cd"
    "s' = setConn (setGame s cd \<lparr>code = cd, hostId = clientId c, hostSocket = sk,
                                  question = trim qs, options = tos, players = [],
                                  state = Lobby\<rparr>) sk (c\<lparr>currentGameCode := Some cd\<rparr>)"
  then show ?thesis
    by (intro fresh [where cd = cd]) (auto simp: created_def setGame_def setConn_def dest: generateGameCode_free)
qed


lemma updatePoll_Done:
  assumes "updatePoll s sk c m = Done s' out"
  shows "s' = s \<or> (\<exists>cd g tos qs. currentGame s c = Some (cd, g) \<and>
     trimmedOptions (elems (getProp m (str ''options''))) = Some tos \<and> 2 \<le> length tos \<and>
     s' = setGame s cd (resetVotes (g\<lparr>question := trim qs, options := tos, state := Lobby\<rparr>)))"
  using assms unfolding updatePoll_def Let_def
  by (auto split: if_splits option.splits json.splits)

lemma currentGame_Some: "currentGame s c = Some (cd, g) \<Longrightarrow> games s cd = Some g"
  by (auto simp: currentGame_def split: option.splits if_splits)

lemma updatePoll_effect:
  assumes "updatePoll s sk c m = Done s' out"
  shows "effect (Message sk (Some m) d u) s s'"
  using updatePoll_Done [OF assms]
proof (elim disjE exE conjE)
  assume "s' = s" then show ?thesis by (simp add: same)
next
  fix cd g tos qs
  assume "currentGame s c = Some (cd, g)"
    "trimmedOptions (elems (getProp m (str ''options''))) = Some tos" "2 \<le> length tos"
    "s' = setGame s cd (resetVotes (g\<lparr>question := trim qs, options := tos, state := Lobby\<rparr>))"
  then show ?thesis
    by (auto intro!: effect_setGame by_update dest: currentGame_Some)
qed

lemma startPoll_Done:
  assumes "startPoll s sk c = Done s' out"
  shows "s' = s \<or> (\<exists>cd g. currentGame s c = Some (cd, g) \<and>
     s' = setGame s cd (resetVotes (g\<lparr>state := Active\<rparr>)))"
  using assms unfolding startPoll_def Let_def
  by (auto split: if_splits option.splits)

lemma startPoll_effect:
  assumes "startPoll s sk c = Done s' out"
  shows "effect e s s'"
  using startPoll_Done [OF assms]
proof (elim disjE exE conjE)
  assume "s' = s" then show ?thesis by (simp add: same)
next
  fix cd g
  assume "currentGame s c = Some (cd, g)" "s' = setGame s cd (resetVotes (g\<lparr>state := Active\<rparr>))"
  then show ?thesis
    by (auto intro!: effect_setGame by_start dest: currentGame_Some)
qed

lemma endPoll_Done:
  assumes "endPoll s sk c = Done s' out"
  shows "s' = s \<or> (\<exists>cd g. currentGame s c = Some (cd, g) \<and> state g = Active \<and>
     s' = setGame s cd (g\<lparr>state := Ended\<rparr>))"
  using assms unfolding endPoll_def Let_def
  by (auto split: if_splits option.splits)

lemma endPoll_effect:
  assumes "endPoll s sk c = Done s' out"
  shows "effect e s s'"
  using endPoll_Done [OF assms]
proof (elim disjE exE conjE)
  assume "s' = s" then show ?thesis by (simp add: same)
next
  fix cd g
  assume "currentGame s c = Some (cd, g)" "s' = setGame s cd (g\<lparr>state := Ended\<rparr>)"
  then show ?thesis
    by (auto intro!: effect_setGame by_end dest: currentGame_Some)
qed

lemma gamesGet_Some: "gamesGet s v = Some (cd, g) \<Longrightarrow> games s cd = Some g"
  by (cases "(s, v)" rule: gamesGet.cases) auto

lemma join_Done:
  assumes "join s sk c m u = Done s' out"
  shows "s' = s \<or> (\<exists>cd g n. gamesGet s (getProp m (str ''code'')) = Some (cd, g) \<and>
     s' = setConn (setGame s cd (g\<lparr>players := mapSet (players g) u
            \<lparr>id_player = u, name = take 40 (trim n), socket = sk, hasVoted = False,
             choiceIndex = None\<rparr>\<rparr>)) sk
          (c\<lparr>currentGameCode := Some cd, playerId := Some u\<rparr>))"
  using assms unfolding join_def Let_def
  by (auto split: if_splits option.splits json.splits)

lemma join_effect:
  assumes "join s sk c m u = Done s' out"
  shows "effect (Message sk raw d u) s s'"
  using join_Done [OF assms]
proof (elim disjE exE conjE)
  assume "s' = s" then show ?thesis by (simp add: same)
next
  fix cd g n
  assume "gamesGet s (getProp m (str ''code'')) = Some (cd, g)"
    "s' = setConn (setGame s cd (g\<lparr>players := mapSet (players g) u
            \<lparr>id_player = u, name = take 40 (trim n), socket = sk, hasVoted = False,
             choiceIndex = None\<rparr>\<rparr>)) sk
          (c\<lparr>currentGameCode := Some cd, playerId := Some u\<rparr>)"
  then show ?thesis
    by (auto intro!: effect_setConn effect_setGame by_join dest: gamesGet_Some)
qed

lemma vote_Done:
  assumes "vote s sk c m = Done s' out"
  shows "s' = s \<or> (\<exists>cd g k pl ci. currentGame s c = Some (cd, g) \<and> state g = Active \<and>
     role c = Some Player \<and>
     mapGet (players g) (playerId c) = Some (k, pl) \<and> \<not> hasVoted pl \<and>
     getProp m (str ''choiceIndex'') = Some (JNum ci) \<and>
     0 \<le> ci \<and> ci < of_nat (length (options g)) \<and>
     s' = setGame s cd (g\<lparr>players := mapSet (players g) k
            (pl\<lparr>hasVoted := True, choiceIndex := Some ci\<rparr>)\<rparr>))"
  using assms unfolding vote_def Let_def
  by (auto split: if_splits option.splits json.splits)

lemma mapGet_Some: "mapGet kvs ko = Some (k, v) \<Longrightarrow> ko = Some k \<and> map_of kvs k = Some v"
  by (auto simp: mapGet_def split: option.splits)

lemma vote_effect:
  assumes "vote s sk c m = Done s' out"
  shows "effect e s s'"
  using vote_Done [OF assms]
proof (elim disjE exE conjE)
  assume "s' = s" then show ?thesis by (simp add: same)
next
  fix cd g k pl ci
  assume "currentGame s c = Some (cd, g)" "mapGet (players g) (playerId c) = Some (k, pl)"
    "0 \<le> ci" "ci < of_nat (length (options g))"
    "s' = setGame s cd (g\<lparr>players := mapSet (players g) k
            (pl\<lparr>hasVoted := True, choiceIndex := Some ci\<rparr>)\<rparr>)"
  then show ?thesis
    by (auto intro!: effect_setGame by_vote dest: currentGame_Some mapGet_Some)
qed

lemma closeHost_games:
  "closeHost s c = (s1, out1) \<Longrightarrow>
     s1 = s \<or> (\<exists>cd. role c = Some Host \<and> currentGameCode c = Some cd \<and>
                  s1 = s\<lparr>games := (games s)(cd := None)\<rparr>)"
  by (auto simp: closeHost_def destroyGame_def split: option.splits if_splits)

lemma closePlayer_games:
  "closePlayer s c = (s2, out2) \<Longrightarrow>
     s2 = s \<or> (\<exists>cd g k. role c = Some Player \<and> currentGame s c = Some (cd, g) \<and>
                  playerId c = Some k \<and>
                  s2 = setGame s cd (g\<lparr>players := mapDelete (players g) k\<rparr>))"
  by (auto simp: closePlayer_def Let_def split: option.splits if_splits)

lemma onClose_Done:
  assumes "onClose s sk = Done s' out"
  shows "s' = s \<or> (\<exists>cd. s' = s\<lparr>games := (games s)(cd := None)\<rparr>) \<or>
         (\<exists>cd g k. games s cd = Some g \<and>
            s' = setGame s cd (g\<lparr>players := mapDelete (players g) k\<rparr>))"
proof (cases "conns s sk")
  case None
  with assms show ?thesis by (simp add: onClose_def)
next
  case (Some c)
  obtain s1 out1 where h: "closeHost s c = (s1, out1)" by (cases "closeHost s c")
  obtain s2 out2 where p: "closePlayer s1 c = (s2, out2)" by (cases "closePlayer s1 c")
  from assms Some h p have s': "s' = s2" by (simp add: onClose_def)
  from closeHost_games [OF h] show ?thesis
  proof (elim disjE exE conjE)
    assume "s1 = s"
    with closePlayer_games [OF p] s' show ?thesis
      by (auto dest: currentGame_Some)
  next
    fix cd assume "role c = Some Host" "s1 = s\<lparr>games := (games s)(cd := None)\<rparr>"
    with closePlayer_games [OF p] s' show ?thesis by auto
  qed
qed

lemma onClose_effect:
  assumes "onClose s sk = Done s' out"
  shows "effect e s s'"
  using onClose_Done [OF assms]
proof (elim disjE exE conjE)
  assume "s' = s" then show ?thesis by (simp add: same)
next
  fix cd assume "s' = s\<lparr>games := (games s)(cd := None)\<rparr>"
  then show ?thesis by (intro removed [where cd = cd]) simp
next
  fix cd g k
  assume "games s cd = Some g" "s' = setGame s cd (g\<lparr>players := mapDelete (players g) k\<rparr>)"
  then show ?thesis
    by (auto intro!: effect_setGame by_leave)
qed

lemma identify_games: "identify s sk c m = Done s' out \<Longrightarrow> games s' = games s"
  by (auto simp: identify_def setConn_def split: option.splits)

lemma onMessage_cases:
  assumes "onMessage s sk raw d u = Done s' out"
  obtains "s' = s"
  | c m where "raw = Some m" "conns s sk = Some c" "identify s sk c m = Done s' out"
  | c m where "raw = Some m" "conns s sk = Some c" "createGame s sk c m d = Done s' out"
  | c m where "raw = Some m" "conns s sk = Some c" "updatePoll s sk c m = Done s' out"
  | c m where "raw = Some m" "conns s sk = Some c" "startPoll s sk c = Done s' out"
  | c m where "raw = Some m" "conns s sk = Some c" "endPoll s sk c = Done s' out"
  | c m where "raw = Some m" "conns s sk = Some c" "join s sk c m u = Done s' out"
  | c m where "raw = Some m" "conns s sk = Some c" "vote s sk c m = Done s' out"
  using assms unfolding onMessage_def unknownType_def
  by (auto split: option.splits json.splits if_splits)

lemma onMessage_effect:
  assumes "onMessage s sk raw d u = Done s' out"
  shows "effect (Message sk raw d u) s s'"
  using assms
  by (cases rule: onMessage_cases)
     (auto intro: same createGame_effect updatePoll_effect startPoll_effect endPoll_effect
        join_effect vote_effect dest: identify_games)

lemma step_effect:
  assumes "step s e = Done s' out"
  shows "effect e s s'"
proof (cases e)
  case (Close sk)
  with assms have "effect e (s\<lparr>sockets := (sockets s)(sk \<mapsto> CLOSED)\<rparr>) s'"
    by (auto intro: onClose_effect)
  then show ?thesis by (auto elim!: effect.cases intro: effect.intros)
qed (use assms in \<open>auto intro: same onMessage_effect\<close>)

section \<open>Invariants of reachable states\<close>

lemma dropWhile_self: "xs = [] \<or> \<not> P (hd xs) \<Longrightarrow> dropWhile P xs = xs"
  by (cases xs) auto

lemma trim_idem: "trim (trim s) = trim s"
proof -
  define t where "t = dropWhile isWhiteSpace s"
  define w where "w = dropWhile isWhiteSpace (rev t)"
  have tw: "trim s = rev w" by (simp add: trim_def t_def w_def)
  have w_hd: "w = [] \<or> \<not> isWhiteSpace (hd w)"
    unfolding w_def using hd_dropWhile by blast
  have t_hd: "t = [] \<or> \<not> isWhiteSpace (hd t)"
    unfolding t_def using hd_dropWhile by blast
  have "rev t = takeWhile isWhiteSpace (rev t) @ w"
    by (simp add: w_def)
  then have "t = rev w @ rev (takeWhile isWhiteSpace (rev t))"
    by (metis rev_append rev_rev_ident)
  then have "rev w = [] \<or> hd (rev w) = hd t"
    by (metis hd_append2)
  with t_hd have rw_hd: "rev w = [] \<or> \<not> isWhiteSpace (hd (rev w))"
    by (metis \<open>t = rev w @ rev (takeWhile isWhiteSpace (rev t))\<close> append_is_Nil_conv)
  have "dropWhile isWhiteSpace (rev w) = rev w"
    using rw_hd by (rule dropWhile_self)
  moreover have "dropWhile isWhiteSpace w = w"
    using w_hd by (rule dropWhile_self)
  ultimately show ?thesis
    by (simp add: tw) (simp add: trim_def)
qed

lemma trimAll_trimmed: "trimAll xs = Some ys \<Longrightarrow> y \<in> set ys \<Longrightarrow> trim y = y"
  by (induction xs arbitrary: ys rule: trimAll.induct) (auto simp: trim_idem)

lemma trimmedOptions_sound:
  "trimmedOptions xs = Some tos \<Longrightarrow> x \<in> set tos \<Longrightarrow> x \<noteq> [] \<and> trim x = x"
  by (auto simp: trimmedOptions_def dest: trimAll_trimmed)

lemma mapSet_keys:
  "map fst (mapSet kvs k v) = (if k \<in> fst ` set kvs then map fst kvs else map fst kvs @ [k])"
  by (induction kvs) (force simp: image_iff)+

lemma mapSet_set: "set (mapSet kvs k v) \<subseteq> insert (k, v) (set kvs)"
  by (induction kvs) (auto split: if_splits)

lemma mapSet_distinct: "distinct (map fst kvs) \<Longrightarrow> distinct (map fst (mapSet kvs k v))"
  by (simp add: mapSet_keys)

lemma mapDelete_set: "set (mapDelete kvs k) \<subseteq> set kvs"
  by (auto simp: mapDelete_def)

lemma mapDelete_distinct: "distinct (map fst kvs) \<Longrightarrow> distinct (map fst (mapDelete kvs k))"
  by (simp add: mapDelete_def distinct_map_filter)

lemma wellFormed_resetVotes:
  assumes "2 \<le> length (options g)" "\<forall>x \<in> set (options g). x \<noteq> [] \<and> trim x = x"
    "distinct (map fst (players g))" "\<forall>(k, pl) \<in> set (players g). id_player pl = k"
  shows "wellFormed (resetVotes g)"
  using assms unfolding wellFormed_def entryOK_def
  by (auto simp: resetVotes_def case_prod_unfold comp_def)

lemma wellFormed_players:
  assumes "wellFormed g" and "distinct (map fst ps)"
    and "\<And>k pl. (k, pl) \<in> set ps \<Longrightarrow> (k, pl) \<in> set (players g) \<or> entryOK g k pl"
  shows "wellFormed (g\<lparr>players := ps\<rparr>)"
  using assms unfolding wellFormed_def entryOK_def by fastforce

lemma changes_wellFormed:
  assumes "changes e g g'" and "wellFormed g"
  shows "wellFormed g'"
  using assms
proof cases
  case (by_update m tos sk d u q)
  have "wellFormed (resetVotes (g\<lparr>question := q, options := tos, state := Lobby\<rparr>))"
    by (rule wellFormed_resetVotes)
       (use by_update assms(2) in \<open>auto simp: wellFormed_def entryOK_def dest: trimmedOptions_sound\<close>)
  then show ?thesis using by_update by simp
next
  case by_start
  have "wellFormed (resetVotes (g\<lparr>state := Active\<rparr>))"
    by (rule wellFormed_resetVotes) (use assms(2) in \<open>auto simp: wellFormed_def entryOK_def\<close>)
  then show ?thesis using by_start by simp
next
  case by_end
  then show ?thesis using assms(2) by (simp add: wellFormed_def entryOK_def)
next
  case (by_join pl u sk raw d)
  have "wellFormed (g\<lparr>players := mapSet (players g) u pl\<rparr>)"
  proof (rule wellFormed_players [OF assms(2)])
    show "distinct (map fst (mapSet (players g) u pl))"
      using assms(2) by (simp add: wellFormed_def mapSet_distinct del: distinct_map)
  next
    fix k p assume "(k, p) \<in> set (mapSet (players g) u pl)"
    then have "(k, p) = (u, pl) \<or> (k, p) \<in> set (players g)"
      using mapSet_set [of "players g" u pl] by auto
    then show "(k, p) \<in> set (players g) \<or> entryOK g k p"
      using by_join by (auto simp: entryOK_def)
  qed
  then show ?thesis using by_join by simp
next
  case (by_vote k pl ci)
  from by_vote(2) have "(k, pl) \<in> set (players g)" by (rule map_of_SomeD)
  with assms(2) have idk: "id_player pl = k" by (auto simp: wellFormed_def entryOK_def)
  let ?pl = "pl\<lparr>hasVoted := True, choiceIndex := Some ci\<rparr>"
  have "wellFormed (g\<lparr>players := mapSet (players g) k ?pl\<rparr>)"
  proof (rule wellFormed_players [OF assms(2)])
    show "distinct (map fst (mapSet (players g) k ?pl))"
      using assms(2) by (simp add: wellFormed_def mapSet_distinct del: distinct_map)
  next
    fix k' p assume "(k', p) \<in> set (mapSet (players g) k ?pl)"
    then have "(k', p) = (k, ?pl) \<or> (k', p) \<in> set (players g)"
      using mapSet_set [of "players g" k ?pl] by auto
    then show "(k', p) \<in> set (players g) \<or> entryOK g k' p"
      using by_vote idk by (auto simp: entryOK_def)
  qed
  then show ?thesis using by_vote by simp
next
  case (by_leave k)
  have "wellFormed (g\<lparr>players := mapDelete (players g) k\<rparr>)"
  proof (rule wellFormed_players [OF assms(2)])
    show "distinct (map fst (mapDelete (players g) k))"
      using assms(2) by (simp add: wellFormed_def mapDelete_distinct del: distinct_map)
  next
    fix k' p assume "(k', p) \<in> set (mapDelete (players g) k)"
    then show "(k', p) \<in> set (players g) \<or> entryOK g k' p"
      using mapDelete_set [of "players g" k] by auto
  qed
  then show ?thesis using by_leave by simp
qed

lemma created_wellFormed: "created e g \<Longrightarrow> wellFormed g"
  by (auto simp: created_def wellFormed_def dest: trimmedOptions_sound)

lemma effect_wellFormed:
  assumes "effect e s s'" and "\<And>cd g. games s cd = Some g \<Longrightarrow> wellFormed g"
    and "games s' cd = Some g"
  shows "wellFormed g"
  using assms
  by cases (auto split: if_splits intro: changes_wellFormed created_wellFormed)

lemma reachable_wellFormed: "reachable s \<Longrightarrow> games s cd = Some g \<Longrightarrow> wellFormed g"
proof (induction arbitrary: cd g rule: reachable.induct)
  case reachable_init
  then show ?case by (simp add: init_def)
next
  case (reachable_step s e s' out)
  show ?case
    by (rule effect_wellFormed [OF step_effect [OF reachable_step(3)] _ reachable_step(5)])
       (rule reachable_step(4))
qed

lemma resetVotes_key_set: "fst ` set (players (resetVotes g)) = fst ` set (players g)"
  using resetVotes_keys [of g] by (metis list.set_map)

lemma mapSet_key_set: "fst ` set (mapSet kvs k v) = insert k (fst ` set kvs)"
  using mapSet_keys [of kvs k v] 
  by (metis (no_types, lifting) Un_insert_right append_Nil2 insert_absorb list.set_map list.simps(15) set_append)

lemma changes_keys:
  assumes "changes e g g'" and "k \<in> fst ` set (players g')"
  shows "k \<in> fst ` set (players g) \<or> (\<exists>sk raw d. e = Message sk raw d k)"
  using assms
proof cases
  case (by_vote k' pl ci)
  from by_vote(2) have "k' \<in> fst ` set (players g)"
    by (metis map_of_SomeD fst_conv image_eqI)
  with by_vote assms(2) show ?thesis by (auto simp: mapSet_key_set)
next
  case (by_leave k')
  with assms(2) show ?thesis by (auto simp: mapDelete_def)
qed (use assms(2) in \<open>auto simp: resetVotes_key_set mapSet_key_set\<close>)

lemma enabled_fresh:
  "enabled s (Message sk raw d u) \<Longrightarrow> games s cd = Some g \<Longrightarrow> u \<notin> fst ` set (players g)"
  by (auto simp: usedIds_def)

lemma effect_ids_apart:
  assumes eff: "effect e s s'" and en: "enabled s e"
    and IH: "\<And>cd g cd' g' k. games s cd = Some g \<Longrightarrow> games s cd' = Some g' \<Longrightarrow>
              k \<in> fst ` set (players g) \<Longrightarrow> k \<in> fst ` set (players g') \<Longrightarrow> cd = cd'"
    and g1: "games s' cd1 = Some g1" and g2: "games s' cd2 = Some g2"
    and k1: "k \<in> fst ` set (players g1)" and k2: "k \<in> fst ` set (players g2)"
  shows "cd1 = cd2"
proof (rule ccontr)
  assume ne: "cd1 \<noteq> cd2"
  from eff show False
  proof cases
    case same
    with IH g1 g2 k1 k2 ne show False by metis
  next
    case (fresh cd g)
    then have "players g = []" by (simp add: created_def)
    with fresh g1 g2 k1 k2 have "games s cd1 = Some g1" "games s cd2 = Some g2"
      by (auto split: if_splits)
    with IH k1 k2 ne show False by metis
  next
    case (removed cd)
    with g1 g2 have "games s cd1 = Some g1" "games s cd2 = Some g2"
      by (auto split: if_splits)
    with IH k1 k2 ne show False by metis
  next
    case (changed cd g g')
    have old: "\<And>c h. c \<noteq> cd \<Longrightarrow> games s' c = Some h \<Longrightarrow> games s c = Some h"
      using changed(3) by simp
    have new: "\<And>h. games s' cd = Some h \<Longrightarrow> h = g'"
      using changed(3) by simp
    have clash: False if a: "games s c = Some h" and b: "c \<noteq> cd" and c: "k \<in> fst ` set (players h)"
      and d: "k \<in> fst ` set (players g')" for c h
    proof -
      from changes_keys [OF changed(2) d] show False
      proof
        assume "k \<in> fst ` set (players g)"
        with IH [OF changed(1) a _ c] b show False by simp
      next
        assume "\<exists>sk raw d. e = Message sk raw d k"
        with en enabled_fresh a c show False by blast
      qed
    qed
    show False
    proof (cases "cd1 = cd")
      case True
      with ne have "cd2 \<noteq> cd" by simp
      with old g2 have "games s cd2 = Some g2" by simp
      moreover from True g1 new have "g1 = g'" by simp
      ultimately show False using clash \<open>cd2 \<noteq> cd\<close> k1 k2 by blast
    next
      case False
      with old g1 have o1: "games s cd1 = Some g1" by simp
      show False
      proof (cases "cd2 = cd")
        case True
        with g2 new have "g2 = g'" by simp
        with clash o1 False k1 k2 show False by blast
      next
        case c2: False
        with old g2 have "games s cd2 = Some g2" by simp
        with IH o1 k1 k2 ne show False by metis
      qed
    qed
  qed
qed

lemma reachable_ids_apart:
  "reachable s \<Longrightarrow> games s cd = Some g \<Longrightarrow> games s cd' = Some g' \<Longrightarrow>
   k \<in> fst ` set (players g) \<Longrightarrow> k \<in> fst ` set (players g') \<Longrightarrow> cd = cd'"
proof (induction arbitrary: cd g cd' g' k rule: reachable.induct)
  case reachable_init
  then show ?case by (simp add: init_def)
next
  case (reachable_step s e s' out)
  show ?case
    by (rule effect_ids_apart [OF step_effect [OF reachable_step(3)] reachable_step(2)
          reachable_step(4) reachable_step(5,6,7,8)])
qed

lemma run_reachable:
  "reachable s \<Longrightarrow> runs s es \<Longrightarrow> reachable (stateOf (run s es)) \<and> returned (run s es)"
proof (induction es arbitrary: s)
  case Nil
  then show ?case by simp
next
  case (Cons e es)
  from Cons.prems(2) obtain s' out where st: "step s e = Done s' out" and en: "enabled s e"
    and rs: "runs s' es"
    by (auto split: outcome.splits)
  from Cons.prems(1) en st have "reachable s'" by (rule reachable_step)
  from Cons.IH [OF this rs] st show ?case
    by (cases "run s' es") auto
qed

section \<open>Evaluating the example runs\<close>

lemma isArrayIndex_Ints: "isArrayIndex c \<longleftrightarrow> 0 \<le> c \<and> c \<in> \<int> \<and> c < 4294967295"
  unfolding isArrayIndex_def by (metis Ints_of_int Ints_cases floor_of_int)

lemma usedIds_iff:
  "u \<in> usedIds s \<longleftrightarrow>
     (\<exists>cd g. games s cd = Some g \<and> u \<in> fst ` set (players g)) \<or>
     (\<exists>sk c. conns s sk = Some c \<and> playerId c = Some u)"
  by (auto simp: usedIds_def)

lemmas eval_defs =
  onMessage_def identify_def createGame_def updatePoll_def startPoll_def endPoll_def join_def
  vote_def unknownType_def send_def setConn_def setGame_def currentGame_def str_def
  trimmedOptions_def trim_def isWhiteSpace_def toString_def init_def mapGet_def resetVotes_def
  serializePlayers_def broadcastToPlayers_def countVotes_def bump_def isArrayIndex_Ints Let_def
  onClose_def closeHost_def closePlayer_def destroyGame_def mapDelete_def usedIds_iff
  frame_def identifyFrame_def pollFrame_def joinFrame_def voteFrame_def
  hostUp_def playerUp_def startPollEv_def ann_def


lemma reachable_twoHosts: "reachable (stateOf (run init twoHosts))"
  using run_reachable [OF reachable_init, of twoHosts] by (simp add: eval_defs twoHosts_def)

section \<open>Options and rosters over a step\<close>



lemma mapSet_fresh: "k \<notin> fst ` set kvs \<Longrightarrow> mapSet kvs k v = kvs @ [(k, v)]"
  by (induction kvs) auto

lemma reachable_entries:
  assumes "reachable s" and "games s cd = Some g" and "games s cd' = Some g'"
    and "(k, pl) \<in> set (players g)" and "(k, pl') \<in> set (players g')"
  shows "cd = cd' \<and> pl = pl' \<and> id_player pl = k"
proof -
  have wf: "wellFormed g" using assms(1,2) by (rule reachable_wellFormed)
  have "k \<in> fst ` set (players g)" "k \<in> fst ` set (players g')"
    using assms(4,5) by force+
  with assms(1-3) have cd: "cd = cd'" by (rule reachable_ids_apart)
  with assms(2,3) have "g' = g" by simp
  with assms(4,5) wf have "pl = pl'"
    by (auto simp: wellFormed_def dest: eq_key_imp_eq_value)
  moreover from wf assms(4) have "id_player pl = k"
    by (auto simp: wellFormed_def entryOK_def)
  ultimately show ?thesis using cd by simp
qed

lemma join_unknown_code:
  assumes "conns s sk = Some c"
    and "getProp m (str ''type'') = Some (JStr (str ''player:join''))"
    and "gamesGet s (getProp m (str ''code'')) = None"
  shows "\<exists>e. onMessage s sk (Some m) d u = Done s (send s sk (Error e))"
  using assms by (auto simp: onMessage_join join_def Let_def)

lemma join_accepted:
  assumes "join s sk c m u = Done s' out" and "s' \<noteq> s"
  shows "\<exists>cd g n. getProp m (str ''code'') = Some (JStr cd) \<and>
           getProp m (str ''name'') = Some (JStr n) \<and> games s cd = Some g \<and>
           s' = setConn (setGame s cd (g\<lparr>players := mapSet (players g) u
                  \<lparr>id_player = u, name = take 40 (trim n), socket = sk, hasVoted = False,
                   choiceIndex = None\<rparr>\<rparr>)) sk
                (c\<lparr>currentGameCode := Some cd, playerId := Some u\<rparr>)"
proof -
  from assms obtain cd g where g: "gamesGet s (getProp m (str ''code'')) = Some (cd, g)"
    unfolding join_def Let_def by (auto split: if_splits option.splits)
  then have cd: "getProp m (str ''code'') = Some (JStr cd)" and gs: "games s cd = Some g"
    by (cases "(s, getProp m (str ''code''))" rule: gamesGet.cases; auto)+
  from assms g obtain n where n: "getProp m (str ''name'') = Some (JStr n)"
    unfolding join_def Let_def by (auto split: if_splits option.splits json.splits)
  from assms g n have
    "s' = setConn (setGame s cd (g\<lparr>players := mapSet (players g) u
                  \<lparr>id_player = u, name = take 40 (trim n), socket = sk, hasVoted = False,
                   choiceIndex = None\<rparr>\<rparr>)) sk
                (c\<lparr>currentGameCode := Some cd, playerId := Some u\<rparr>)"
    unfolding join_def Let_def by (auto split: if_splits)
  with cd gs n show ?thesis by blast
qed

lemma join_appends:
  assumes "conns s sk = Some c"
    and "getProp m (str ''type'') = Some (JStr (str ''player:join''))"
    and "onMessage s sk (Some m) d u = Done s' out" and "s' \<noteq> s" and "u \<notin> usedIds s"
  shows "\<exists>cd g n. getProp m (str ''code'') = Some (JStr cd) \<and>
           getProp m (str ''name'') = Some (JStr n) \<and> games s cd = Some g \<and>
           games s' = (games s)(cd \<mapsto> g\<lparr>players := players g @
              [(u, \<lparr>id_player = u, name = take 40 (trim n), socket = sk, hasVoted = False,
                    choiceIndex = None\<rparr>)]\<rparr>) \<and>
           conns s' = (conns s)(sk \<mapsto> c\<lparr>currentGameCode := Some cd, playerId := Some u\<rparr>) \<and>
           sockets s' = sockets s"
proof -
  from assms(1-3) have "join s sk c m u = Done s' out" by (simp add: onMessage_join)
  from join_accepted [OF this assms(4)] obtain cd g n where
    cd: "getProp m (str ''code'') = Some (JStr cd)" and
    n: "getProp m (str ''name'') = Some (JStr n)" and gs: "games s cd = Some g" and
    s': "s' = setConn (setGame s cd (g\<lparr>players := mapSet (players g) u
            \<lparr>id_player = u, name = take 40 (trim n), socket = sk, hasVoted = False,
             choiceIndex = None\<rparr>\<rparr>)) sk
          (c\<lparr>currentGameCode := Some cd, playerId := Some u\<rparr>)"
    by blast
  from gs assms(5) have "u \<notin> fst ` set (players g)" by (auto simp: usedIds_iff)
  then have "mapSet (players g) u
            \<lparr>id_player = u, name = take 40 (trim n), socket = sk, hasVoted = False,
             choiceIndex = None\<rparr> =
          players g @ [(u, \<lparr>id_player = u, name = take 40 (trim n), socket = sk,
             hasVoted = False, choiceIndex = None\<rparr>)]"
    by (rule mapSet_fresh)
  with s' have "games s' = (games s)(cd \<mapsto> g\<lparr>players := players g @
              [(u, \<lparr>id_player = u, name = take 40 (trim n), socket = sk, hasVoted = False,
                    choiceIndex = None\<rparr>)]\<rparr>)"
    "conns s' = (conns s)(sk \<mapsto> c\<lparr>currentGameCode := Some cd, playerId := Some u\<rparr>)"
    "sockets s' = sockets s"
    by (simp_all add: setConn_def setGame_def)
  with cd n gs show ?thesis by blast
qed

section \<open>The tally, a vote and a closing host in general\<close>

text \<open>
  What holds of the three handlers that fail a claim below. In a reachable store every
  stored \<open>choiceIndex\<close> lies within the options, and the count at each index is the number
  of entries whose \<open>choiceIndex\<close> is that index (a JavaScript array is shorter than
  \<open>2^32\<close>); a vote passing the guard is recorded; a closing host's current session is
  destroyed after its roster is told.
\<close>

lemma upd_map_upt: "j < n \<Longrightarrow> (map f [0..<n])[j := v] = map (f(j := v)) [0..<n]"
  by (auto simp: list_eq_iff_nth_eq nth_list_update)

lemma index_of_rat:
  assumes "isArrayIndex c"
  shows "c = of_nat (nat \<lfloor>c\<rfloor>)"
proof -
  from assms have "0 \<le> c" "of_int \<lfloor>c\<rfloor> = c" by (simp_all add: isArrayIndex_def)
  then show ?thesis by (metis of_nat_nat zero_le_floor)
qed

lemma not_index_of_rat:
  assumes "\<not> isArrayIndex c" and "c < of_nat n" and "n \<le> 4294967295"
  shows "c \<noteq> of_nat i"
proof
  assume c: "c = of_nat i"
  then have "0 \<le> c" "of_int \<lfloor>c\<rfloor> = c" by simp_all
  moreover from assms(2,3) have "c < 4294967295"
    by (metis (mono_tags, opaque_lifting) less_le_trans of_nat_le_iff of_nat_numeral)
  ultimately show False using assms(1) by (simp add: isArrayIndex_def)
qed

lemma bump_in_range:
  assumes "0 \<le> c" and "c < of_nat n" and "n \<le> 4294967295"
  shows "bump (map (\<lambda>i. Count (a i)) [0..<n]) c =
           map (\<lambda>i. Count (a i + (if c = of_nat i then 1 else 0))) [0..<n]"
proof (cases "isArrayIndex c")
  case True
  let ?j = "nat \<lfloor>c\<rfloor>"
  from index_of_rat [OF True] have c: "c = of_nat ?j" .
  with assms(2) have j: "?j < n" by (metis of_nat_less_iff)
  have eq: "(c = of_nat i) = (i = ?j)" for i
    using c by (metis of_nat_eq_iff)
  have "bump (map (\<lambda>i. Count (a i)) [0..<n]) c =
          (map (\<lambda>i. Count (a i)) [0..<n])[?j := Count (a ?j + 1)]"
    using True j by (simp add: bump_def Let_def)
  also have "\<dots> = map ((\<lambda>i. Count (a i))(?j := Count (a ?j + 1))) [0..<n]"
    using j by (rule upd_map_upt)
  also have "\<dots> = map (\<lambda>i. Count (a i + (if c = of_nat i then 1 else 0))) [0..<n]"
    by (rule map_cong) (auto simp: eq)
  finally show ?thesis .
next
  case False
  from not_index_of_rat [OF False assms(2,3)] have "\<And>i. c \<noteq> of_nat i" .
  with False show ?thesis by (simp add: bump_def)
qed

lemma foldl_bump:
  assumes "\<forall>(k, pl) \<in> set ps. \<forall>c. choiceIndex pl = Some c \<longrightarrow> 0 \<le> c \<and> c < of_nat n"
    and "n \<le> 4294967295"
  shows "foldl (\<lambda>counts (k, pl). case choiceIndex pl of None \<Rightarrow> counts | Some c \<Rightarrow> bump counts c)
           (map (\<lambda>i. Count (a i)) [0..<n]) ps =
         map (\<lambda>i. Count (a i + length (filter (\<lambda>(k, pl). choiceIndex pl = Some (of_nat i)) ps)))
           [0..<n]"
  using assms(1)
proof (induction ps arbitrary: a)
  case Nil
  then show ?case by simp
next
  case (Cons kp ps)
  obtain k pl where kp: "kp = (k, pl)" by (cases kp)
  from Cons.prems have rest:
    "\<forall>(k, pl) \<in> set ps. \<forall>c. choiceIndex pl = Some c \<longrightarrow> 0 \<le> c \<and> c < of_nat n"
    by simp
  show ?case
  proof (cases "choiceIndex pl")
    case None
    with Cons.IH [OF rest, of a] kp show ?thesis by simp
  next
    case (Some c)
    with Cons.prems kp have "0 \<le> c" "c < of_nat n" by auto
    from bump_in_range [OF this assms(2), of a]
    have "bump (map (\<lambda>i. Count (a i)) [0..<n]) c =
            map (\<lambda>i. Count (a i + (if c = of_nat i then 1 else 0))) [0..<n]" .
    with Cons.IH [OF rest, of "\<lambda>i. a i + (if c = of_nat i then 1 else 0)"] kp Some
    show ?thesis by (simp add: add.assoc)
  qed
qed

lemma reachable_tally:
  assumes "reachable s" and "games s cd = Some g" and "length (options g) \<le> 4294967295"
  shows "countVotes g =
           map (\<lambda>i. Count (length (filter (\<lambda>(k, pl). choiceIndex pl = Some (of_nat i)) (players g))))
             [0..<length (options g)]"
proof -
  from assms(1,2) have "wellFormed g" by (rule reachable_wellFormed)
  then have r: "\<forall>(k, pl) \<in> set (players g). \<forall>c. choiceIndex pl = Some c \<longrightarrow>
                  0 \<le> c \<and> c < of_nat (length (options g))"
    by (auto simp: wellFormed_def entryOK_def)
  have z: "map (\<lambda>_. Count 0) (options g) = map (\<lambda>i. Count 0) [0..<length (options g)]"
    by (simp add: map_replicate_const)
  show ?thesis
    unfolding countVotes_def z using foldl_bump [OF r assms(3), of "\<lambda>i. 0"] by simp
qed

lemma host_close_destroys_current:
  assumes "conns s sk = Some c" and "role c = Some Host" and "currentGameCode c = Some cd"
    and "cd \<noteq> []" and "games s cd = Some g"
  shows "onClose s sk =
           Done (s\<lparr>games := (games s)(cd := None)\<rparr>) (broadcastToPlayers s g GameEnded)"
proof -
  have h: "closeHost s c = (s\<lparr>games := (games s)(cd := None)\<rparr>, broadcastToPlayers s g GameEnded)"
    using assms(2-5) by (simp add: closeHost_def destroyGame_def)
  have p: "closePlayer s' c = (s', [])" for s'
    using assms(2) by (simp add: closePlayer_def)
  show ?thesis
    by (simp add: onClose_def assms(1) h p)
qed

lemma vote_accepts:
  assumes "role c = Some Player" and "currentGame s c = Some (cd, g)" and "state g = Active"
    and "mapGet (players g) (playerId c) = Some (k, pl)" and "\<not> hasVoted pl"
    and "getProp m (str ''choiceIndex'') = Some (JNum ci)"
    and "0 \<le> ci" and "ci < of_nat (length (options g))"
  shows "vote s sk c m =
           Done (setGame s cd (g\<lparr>players := mapSet (players g) k
                   (pl\<lparr>hasVoted := True, choiceIndex := Some ci\<rparr>)\<rparr>))
             (send s sk (PlayerVoted ci) @
              send s (hostSocket g) (HostPlayersUpdated (serializePlayers
                (g\<lparr>players := mapSet (players g) k
                   (pl\<lparr>hasVoted := True, choiceIndex := Some ci\<rparr>)\<rparr>))) @
              send s (hostSocket g) (HostPollProgress (countVotes
                (g\<lparr>players := mapSet (players g) k
                   (pl\<lparr>hasVoted := True, choiceIndex := Some ci\<rparr>)\<rparr>))))"
  using assms by (simp add: vote_def Let_def)

section \<open>The claims\<close>

subsection \<open>C1: the tally\<close>

text \<open>
  C1. The tally of a results broadcast has one count per option, the count at index
  \<open>i\<close> being the number of roster players whose \<open>choiceIndex\<close> is \<open>i\<close>, and its sum
  is the number of players with \<open>hasVoted\<close>. The server breaks the last part: Ann's
  vote for the index \<open>1/2\<close> passes the range check of \<^verbatim>\<open>player:vote\<close>, so she has voted,
  but \<^verbatim>\<open>counts[0.5] += 1\<close> touches no element. After \<^verbatim>\<open>host:end_poll\<close> the broadcast
  tally is \<open>[0, 0]\<close> while one player has \<open>hasVoted\<close>. The run is one the transport
  allows (\<open>runs\<close>).
\<close>

theorem tally_misses_fractional_vote:
  "runs init fractionalRound \<and> returned (run init fractionalRound) \<and>
   map_option countVotes (games (stateOf (run init fractionalRound)) (str ''123456'')) =
     Some [Count 0, Count 0] \<and>
   map_option (length \<circ> filter (hasVoted \<circ> snd) \<circ> players)
     (games (stateOf (run init fractionalRound)) (str ''123456'')) = Some 1 \<and>
   last (framesOf (run init fractionalRound)) =
     (2, PollResults (str ''Pick'') [str ''Red'', str ''Blue''] [Count 0, Count 0])"
  by (simp add: eval_defs fractionalRound_def voteEv_def endPollEv_def)

subsection \<open>C2: the options of a session\<close>




subsection \<open>C3: the guard of a vote\<close>

text \<open>
  C3. A vote is accepted only for an integer index within the options. The server's
  guard, \<^verbatim>\<open>typeof choiceIndex !== 'number' || choiceIndex < 0 || choiceIndex >= length\<close>,
  lets the number \<open>1/2\<close> through: in an open round Ann's frame
  \<^verbatim>\<open>{"type":"player:vote","choiceIndex":0.5}\<close> is acknowledged with \<^verbatim>\<open>player:voted\<close> and
  stored as her choice.
\<close>

theorem fractional_vote_accepted:
  "runs init (hostUp @ playerUp @ [startPollEv, voteEv (1 / 2)]) \<and>
   step (stateOf (run init (hostUp @ playerUp @ [startPollEv]))) (voteEv (1 / 2)) =
     Done (setGame (stateOf (run init (hostUp @ playerUp @ [startPollEv]))) (str ''123456'')
             \<lparr>code = str ''123456'', hostId = 10, hostSocket = 1, question = str ''Pick'',
              options = [str ''Red'', str ''Blue''],
              players = [(7, ann\<lparr>hasVoted := True, choiceIndex := Some (1 / 2)\<rparr>)],
              state = Active\<rparr>)
       [(2, PlayerVoted (1 / 2)), (1, HostPlayersUpdated [(7, str ''Ann'', True)]),
        (1, HostPollProgress [Count 0, Count 0])]"
  by (simp add: eval_defs voteEv_def)

subsection \<open>C4: the host disconnects\<close>

text \<open>
  C4. When its host's connection closes, a session leaves the store and its players are
  told. The \<^verbatim>\<open>close\<close> listener destroys only the session \<^verbatim>\<open>currentGameCode\<close> names:
  a host that created 123456, which Ann joined, and then 222222 on the same connection
  leaves 123456 in the store when it disconnects, its roster intact, and Ann, whose
  socket is open, is sent no \<^verbatim>\<open>game:ended\<close>.
\<close>

theorem earlier_session_survives_host_close:
  "runs init twoSessions \<and> returned (run init twoSessions) \<and>
   sockets (stateOf (run init twoSessions)) 1 = Some CLOSED \<and>
   games (stateOf (run init twoSessions)) (str ''222222'') = None \<and>
   map_option hostSocket (games (stateOf (run init twoSessions)) (str ''123456'')) = Some 1 \<and>
   map_option players (games (stateOf (run init twoSessions)) (str ''123456'')) = Some [(7, ann)] \<and>
   sockets (stateOf (run init twoSessions)) 2 = Some OPEN \<and>
   (2, GameEnded) \<notin> set (framesOf (run init twoSessions))"
  by (simp add: eval_defs twoSessions_def)

subsection \<open>C5: starting a poll\<close>

text \<open>
  C5. For a \<^verbatim>\<open>host:start_poll\<close> frame from the host of a session: when the session is
  active the frame is answered with an error and the store is unchanged; otherwise
  (lobby or ended) the session becomes active, the roster keeps its players, and every
  player has \<open>hasVoted = false\<close> and no \<open>choiceIndex\<close>, whatever they held before.
\<close>

theorem start_poll_clears_votes:
  assumes "conns s sk = Some c"
    and "getProp m (str ''type'') = Some (JStr (str ''host:start_poll''))"
    and "role c = Some Host"
    and "currentGame s c = Some (cd, g0)"
  shows "if state g0 = Active
         then onMessage s sk (Some m) d u = Done s (send s sk (Error AlreadyInProgress))
         else (\<exists>s' g out. onMessage s sk (Some m) d u = Done s' out \<and> games s' cd = Some g \<and>
                 state g = Active \<and> map fst (players g) = map fst (players g0) \<and>
                 (\<forall>(k, pl) \<in> set (players g). \<not> hasVoted pl \<and> choiceIndex pl = None) \<and>
                 out = send s sk (HostPlayersUpdated (serializePlayers g)) @
                       broadcastToPlayers s g (PollStart (question g0) (options g0)) @
                       send s sk HostPollStarted)"
proof (cases "state g0 = Active")
  case True
  then show ?thesis
    using assms by (simp add: onMessage_start_poll startPoll_def)
next
  case False
  let ?g = "resetVotes (g0\<lparr>state := Active\<rparr>)"
  have run: "onMessage s sk (Some m) d u =
      Done (setGame s cd ?g)
        (send s sk (HostPlayersUpdated (serializePlayers ?g)) @
         broadcastToPlayers s ?g (PollStart (question ?g) (options ?g)) @
         send s sk HostPollStarted)"
    using assms False by (simp add: onMessage_start_poll startPoll_def Let_def)
  have "games (setGame s cd ?g) cd = Some ?g" by (simp add: setGame_def)
  moreover have "state ?g = Active" "question ?g = question g0" "options ?g = options g0"
    by (simp_all add: resetVotes_def)
  moreover have "map fst (players ?g) = map fst (players g0)"
    by (simp add: resetVotes_keys)
  moreover have "\<forall>(k, pl) \<in> set (players ?g). \<not> hasVoted pl \<and> choiceIndex pl = None"
    using resetVotes_cleared by blast
  ultimately show ?thesis using False run by auto
qed

text \<open>
  The theorem after a finished round in which Ann had voted.
\<close>

theorem start_poll_clears_votes_witness:
  "\<exists>s' g out.
     onMessage (stateOf (run init fractionalRound)) 1 (Some (frame ''host:start_poll'' [])) [] 0 =
       Done s' out \<and>
     games s' (str ''123456'') = Some g \<and> state g = Active \<and> map fst (players g) = [7] \<and>
     (\<forall>(k, pl) \<in> set (players g). \<not> hasVoted pl \<and> choiceIndex pl = None)"
proof -
  let ?s = "stateOf (run init fractionalRound)"
  let ?c = "\<lparr>clientId = 10, role = Some Host, currentGameCode = Some (str ''123456''),
              playerId = None\<rparr>"
  let ?g = "\<lparr>code = str ''123456'', hostId = 10, hostSocket = 1, question = str ''Pick'',
              options = [str ''Red'', str ''Blue''],
              players = [(7, ann\<lparr>hasVoted := True, choiceIndex := Some (1 / 2)\<rparr>)],
              state = Ended\<rparr>"
  have c: "conns ?s 1 = Some ?c" by (simp add: eval_defs fractionalRound_def voteEv_def endPollEv_def)
  have t: "getProp (frame ''host:start_poll'' []) (str ''type'') =
             Some (JStr (str ''host:start_poll''))"
    by (simp add: eval_defs fractionalRound_def voteEv_def endPollEv_def)
  have r: "role ?c = Some Host" by simp
  have g: "currentGame ?s ?c = Some (str ''123456'', ?g)" by (simp add: eval_defs fractionalRound_def voteEv_def endPollEv_def)
  from start_poll_clears_votes [OF c t r g, of "[]" 0]
  have "\<exists>s' g out.
          onMessage ?s 1 (Some (frame ''host:start_poll'' [])) [] 0 = Done s' out \<and>
          games s' (str ''123456'') = Some g \<and> state g = Active \<and>
          map fst (players g) = map fst (players ?g) \<and>
          (\<forall>(k, pl) \<in> set (players g). \<not> hasVoted pl \<and> choiceIndex pl = None) \<and>
          out = send ?s 1 (HostPlayersUpdated (serializePlayers g)) @
                broadcastToPlayers ?s g (PollStart (question ?g) (options ?g)) @
                send ?s 1 HostPollStarted"
    by simp
  then show ?thesis
    apply (elim exE conjE)
    subgoal for s' g out
      by (intro exI [of _ s'] exI [of _ g] exI [of _ out]) simp
    done
qed

subsection \<open>C6: a second vote\<close>




subsection \<open>C7: the question\<close>

text \<open>
  C7. Create and update reject a question that is empty after trimming. The server
  tests \<^verbatim>\<open>!question\<close> before it trims: a question of three spaces is accepted by
  \<^verbatim>\<open>host:create_game\<close> and by \<^verbatim>\<open>host:update_poll\<close>, and the stored question is the
  empty string.
\<close>

theorem blank_question_stored:
  "runs init blankCreate \<and>
   framesOf (run init blankCreate) =
     [(1, Identified Host), (1, HostGameCreated (str ''123456'') [] [str ''Red'', str ''Blue''])] \<and>
   map_option question (games (stateOf (run init blankCreate)) (str ''123456'')) = Some [] \<and>
   runs init blankUpdate \<and>
   framesOf (run init blankUpdate) =
     [(1, Identified Host),
      (1, HostGameCreated (str ''123456'') (str ''Pick'') [str ''Red'', str ''Blue'']),
      (1, HostPollUpdated [] [str ''Red'', str ''Blue'']), (1, HostPlayersUpdated [])] \<and>
   map_option question (games (stateOf (run init blankUpdate)) (str ''123456'')) = Some []"
  by (simp add: eval_defs hostIdentified_def blankCreate_def blankUpdate_def)

subsection \<open>C8: the role of a connection\<close>

text \<open>
  C8, in the form the server satisfies. After a frame on a connection, the stored role of every connection is
  what it was, except that an \<^verbatim>\<open>identify\<close> frame carrying \<^verbatim>\<open>host\<close> or \<^verbatim>\<open>player\<close> sets
  the sender's role to the role it carries, also when a role was already set. An
  \<^verbatim>\<open>identify\<close> with any other role is answered with an error and changes nothing.
\<close>

theorem role_follows_identify:
  assumes "conns s sk = Some c" and "onMessage s sk raw d u = Done s' out"
  shows "map_option role (conns s' sk') =
           (case raw of
              None \<Rightarrow> map_option role (conns s sk')
            | Some m \<Rightarrow>
                if sk' = sk \<and> getProp m (str ''type'') = Some (JStr (str ''identify'')) \<and>
                   parseRole (getProp m (str ''role'')) \<noteq> None
                then Some (parseRole (getProp m (str ''role'')))
                else map_option role (conns s sk'))
         \<and> (\<forall>m. raw = Some m \<and> getProp m (str ''type'') = Some (JStr (str ''identify'')) \<and>
                  parseRole (getProp m (str ''role'')) = None \<longrightarrow>
                  s' = s \<and> out = send s sk (Error UnknownRole))"
proof (cases raw)
  case None
  then show ?thesis using assms by (auto simp: onMessage_def)
next
  case (Some m)
  show ?thesis
  proof (cases "getProp m (str ''type'')")
    case None
    then show ?thesis using assms Some
      by (cases m) (auto simp: onMessage_def unknownType_def)
  next
    case (Some ty)
    note ty = this
    show ?thesis
    proof (cases ty)
      case (JStr t)
      have om: "onMessage s sk (Some m) d u =
        (if t = str ''identify'' then identify s sk c m
         else if t = str ''host:create_game'' then createGame s sk c m d
         else if t = str ''host:update_poll'' then updatePoll s sk c m
         else if t = str ''host:start_poll'' then startPoll s sk c
         else if t = str ''host:end_poll'' then endPoll s sk c
         else if t = str ''player:join'' then join s sk c m u
         else if t = str ''player:vote'' then vote s sk c m
         else unknownType s sk)"
        using assms(1) ty JStr by (simp add: onMessage_typed)
      show ?thesis
      proof (cases "t = str ''identify''")
        case True
        with om assms \<open>raw = Some m\<close> have id: "identify s sk c m = Done s' out" by simp
        from identify_role [OF id assms(1)] id True ty JStr \<open>raw = Some m\<close>
        show ?thesis by (auto simp: identify_def split: option.splits)
      next
        case False
        with om assms \<open>raw = Some m\<close>
        have "map_option role (conns s' sk') = map_option role (conns s sk')"
          by (auto simp: unknownType_def split: if_splits
              dest: createGame_role updatePoll_conns startPoll_conns endPoll_conns join_role vote_conns)
        then show ?thesis using False ty JStr \<open>raw = Some m\<close> by auto
      qed
    next
      case JNull then show ?thesis using assms ty \<open>raw = Some m\<close>
        by (cases m) (auto simp: onMessage_def unknownType_def)
    next
      case (JBool x) then show ?thesis using assms ty \<open>raw = Some m\<close>
        by (cases m) (auto simp: onMessage_def unknownType_def)
    next
      case (JNum x) then show ?thesis using assms ty \<open>raw = Some m\<close>
        by (cases m) (auto simp: onMessage_def unknownType_def)
    next
      case (JArr x) then show ?thesis using assms ty \<open>raw = Some m\<close>
        by (cases m) (auto simp: onMessage_def unknownType_def)
    next
      case (JObj x) then show ?thesis using assms ty \<open>raw = Some m\<close>
        by (cases m) (auto simp: onMessage_def unknownType_def)
    qed
  qed
qed

text \<open>
  The theorem for an identified host that sends \<^verbatim>\<open>identify\<close> as player, \<^verbatim>\<open>identify\<close>
  as admin, and \<^verbatim>\<open>host:start_poll\<close>.
\<close>

theorem role_follows_identify_witness:
  "map_option role (conns (stateOf (onMessage (stateOf (run init hostIdentified)) 1
      (Some (identifyFrame ''player'')) [] 0)) 1) = Some (Some Player) \<and>
   map_option role (conns (stateOf (onMessage (stateOf (run init hostIdentified)) 1
      (Some (identifyFrame ''admin'')) [] 0)) 1) = Some (Some Host) \<and>
   map_option role (conns (stateOf (onMessage (stateOf (run init hostIdentified)) 1
      (Some (frame ''host:start_poll'' [])) [] 0)) 1) = Some (Some Host)"
proof -
  let ?s = "stateOf (run init hostIdentified)"
  let ?c = "\<lparr>clientId = 10, role = Some Host, currentGameCode = None, playerId = None\<rparr>"
  have c: "conns ?s 1 = Some ?c" by (simp add: eval_defs hostIdentified_def)
  have d: "onMessage ?s 1 (Some m) [] 0 =
      Done (stateOf (onMessage ?s 1 (Some m) [] 0)) (framesOf (onMessage ?s 1 (Some m) [] 0))"
    if "returned (onMessage ?s 1 (Some m) [] 0)" for m
    using that by (cases "onMessage ?s 1 (Some m) [] 0") auto
  have r1: "returned (onMessage ?s 1 (Some (identifyFrame ''player'')) [] 0)"
    by (simp add: eval_defs hostIdentified_def)
  have r2: "returned (onMessage ?s 1 (Some (identifyFrame ''admin'')) [] 0)"
    by (simp add: eval_defs hostIdentified_def)
  have r3: "returned (onMessage ?s 1 (Some (frame ''host:start_poll'' [])) [] 0)"
    by (simp add: eval_defs hostIdentified_def)
  have p1: "parseRole (getProp (identifyFrame ''player'') (str ''role'')) = Some Player"
    "getProp (identifyFrame ''player'') (str ''type'') = Some (JStr (str ''identify''))"
    by (simp_all add: eval_defs hostIdentified_def)
  have p2: "parseRole (getProp (identifyFrame ''admin'') (str ''role'')) = None"
    by (simp add: eval_defs hostIdentified_def)
  have p3: "getProp (frame ''host:start_poll'' []) (str ''type'') \<noteq> Some (JStr (str ''identify''))"
    by (simp add: eval_defs hostIdentified_def)
  from role_follows_identify [OF c d [OF r1], of 1] p1
  have "map_option role (conns (stateOf (onMessage ?s 1 (Some (identifyFrame ''player'')) [] 0)) 1) =
          Some (Some Player)"
    by simp
  moreover from role_follows_identify [OF c d [OF r2], of 1] p2 c
  have "map_option role (conns (stateOf (onMessage ?s 1 (Some (identifyFrame ''admin'')) [] 0)) 1) =
          Some (Some Host)"
    by simp
  moreover from role_follows_identify [OF c d [OF r3], of 1] p3 c
  have "map_option role (conns (stateOf (onMessage ?s 1 (Some (frame ''host:start_poll'' [])) [] 0)) 1) =
          Some (Some Host)"
    by simp
  ultimately show ?thesis by simp
qed

text \<open>
  The stored role is not immutable, as C8 has it: a second \<^verbatim>\<open>identify\<close> replaces it.
\<close>

theorem second_identify_replaces_role:
  "runs init reidentify \<and>
   map_option role (conns (stateOf (run init hostIdentified)) 1) = Some (Some Host) \<and>
   map_option role (conns (stateOf (run init reidentify)) 1) = Some (Some Player) \<and>
   framesOf (run init reidentify) = [(1, Identified Host), (1, Identified Player)]"
  by (simp add: eval_defs hostIdentified_def reidentify_def)

subsection \<open>C9: players and rosters\<close>

text \<open>
  C9, in the form the server satisfies. In every reachable store a player identifier
  names one entry of one roster, and the entry carries that identifier; a
  \<^verbatim>\<open>player:join\<close> whose code finds no session is answered with an error and changes
  nothing; a \<^verbatim>\<open>player:join\<close> that changes the state appends one entry, for the sender's
  socket and under the trimmed name of the frame cut to 40 code units, to the roster of
  the session the frame's code names, makes that session and entry the connection's
  current ones, and changes no other session. Identifiers from \<^verbatim>\<open>randomUUID\<close> are
  taken to be unused.
\<close>

theorem player_in_one_roster:
  assumes "reachable s"
  shows "(games s cd = Some g \<longrightarrow> games s cd' = Some g' \<longrightarrow> (k, pl) \<in> set (players g) \<longrightarrow>
            (k, pl') \<in> set (players g') \<longrightarrow> cd = cd' \<and> pl = pl' \<and> id_player pl = k) \<and>
         (conns s sk = Some c \<longrightarrow>
            getProp m (str ''type'') = Some (JStr (str ''player:join'')) \<longrightarrow>
            gamesGet s (getProp m (str ''code'')) = None \<longrightarrow>
            (\<exists>e. onMessage s sk (Some m) d u = Done s (send s sk (Error e)))) \<and>
         (conns s sk = Some c \<longrightarrow>
            getProp m' (str ''type'') = Some (JStr (str ''player:join'')) \<longrightarrow>
            onMessage s sk (Some m') d u = Done s' out \<longrightarrow> s' \<noteq> s \<longrightarrow> u \<notin> usedIds s \<longrightarrow>
            (\<exists>cd0 g0 n. getProp m' (str ''code'') = Some (JStr cd0) \<and>
               getProp m' (str ''name'') = Some (JStr n) \<and> games s cd0 = Some g0 \<and>
               games s' = (games s)(cd0 \<mapsto> g0\<lparr>players := players g0 @
                 [(u, \<lparr>id_player = u, name = take 40 (trim n), socket = sk, hasVoted = False,
                       choiceIndex = None\<rparr>)]\<rparr>) \<and>
               conns s' = (conns s)(sk \<mapsto> c\<lparr>currentGameCode := Some cd0, playerId := Some u\<rparr>) \<and>
               sockets s' = sockets s))"
proof (intro conjI impI)
  assume "games s cd = Some g" "games s cd' = Some g'" "(k, pl) \<in> set (players g)"
    "(k, pl') \<in> set (players g')"
  with assms have e: "cd = cd' \<and> pl = pl' \<and> id_player pl = k" by (rule reachable_entries)
  from e show "cd = cd'" by blast
  from e show "pl = pl'" by blast
  from e show "id_player pl = k" by blast
next
  assume "conns s sk = Some c" "getProp m (str ''type'') = Some (JStr (str ''player:join''))"
    "gamesGet s (getProp m (str ''code'')) = None"
  then show "\<exists>e. onMessage s sk (Some m) d u = Done s (send s sk (Error e))"
    by (rule join_unknown_code)
next
  assume "conns s sk = Some c" "getProp m' (str ''type'') = Some (JStr (str ''player:join''))"
    "onMessage s sk (Some m') d u = Done s' out" "s' \<noteq> s" "u \<notin> usedIds s"
  then show "\<exists>cd0 g0 n. getProp m' (str ''code'') = Some (JStr cd0) \<and>
               getProp m' (str ''name'') = Some (JStr n) \<and> games s cd0 = Some g0 \<and>
               games s' = (games s)(cd0 \<mapsto> g0\<lparr>players := players g0 @
                 [(u, \<lparr>id_player = u, name = take 40 (trim n), socket = sk, hasVoted = False,
                       choiceIndex = None\<rparr>)]\<rparr>) \<and>
               conns s' = (conns s)(sk \<mapsto> c\<lparr>currentGameCode := Some cd0, playerId := Some u\<rparr>) \<and>
               sockets s' = sockets s"
    by (rule join_appends)
qed

text \<open>
  The theorem in a store with two sessions, Ann being on the roster of 123456: her
  entry, a join with the unknown code 999999, and a join with the code 654321, which
  puts the new entry on the roster of 654321 and of no other session.
\<close>

theorem player_in_one_roster_witness:
  "id_player ann = 7 \<and>
   (\<exists>e. onMessage (stateOf (run init twoHosts)) 2 (Some (joinFrame ''999999'' ''Bob'')) [] 8 =
         Done (stateOf (run init twoHosts)) [(2, Error e)]) \<and>
   games (stateOf (onMessage (stateOf (run init twoHosts)) 2
            (Some (joinFrame ''654321'' ''Ann'')) [] 8)) =
     (games (stateOf (run init twoHosts)))(str ''654321'' \<mapsto>
        \<lparr>code = str ''654321'', hostId = 30, hostSocket = 3, question = str ''Other'',
         options = [str ''Yes'', str ''No''],
         players = [(8, \<lparr>id_player = 8, name = str ''Ann'', socket = 2, hasVoted = False,
                         choiceIndex = None\<rparr>)],
         state = Lobby\<rparr>) \<and>
   map_option players (games (stateOf (run init twoHosts)) (str ''123456'')) = Some [(7, ann)]"
proof -
  let ?s = "stateOf (run init twoHosts)"
  let ?g = "\<lparr>code = str ''123456'', hostId = 10, hostSocket = 1, question = str ''Pick'',
              options = [str ''Red'', str ''Blue''], players = [(7, ann)], state = Lobby\<rparr>"
  let ?h = "\<lparr>code = str ''654321'', hostId = 30, hostSocket = 3, question = str ''Other'',
              options = [str ''Yes'', str ''No''], players = [], state = Lobby\<rparr>"
  let ?c = "\<lparr>clientId = 20, role = Some Player, currentGameCode = Some (str ''123456''),
              playerId = Some 7\<rparr>"
  let ?r = "onMessage ?s 2 (Some (joinFrame ''654321'' ''Ann'')) [] 8"
  have g: "games ?s (str ''123456'') = Some ?g" by (simp add: eval_defs twoHosts_def)
  have h: "games ?s (str ''654321'') = Some ?h" by (simp add: eval_defs twoHosts_def)
  have a: "(7, ann) \<in> set (players ?g)" by simp
  have c: "conns ?s 2 = Some ?c" by (simp add: eval_defs twoHosts_def)
  have t1: "getProp (joinFrame ''999999'' ''Bob'') (str ''type'') = Some (JStr (str ''player:join''))"
    by (simp add: eval_defs)
  have t2: "getProp (joinFrame ''654321'' ''Ann'') (str ''type'') = Some (JStr (str ''player:join''))"
    by (simp add: eval_defs)
  have u: "gamesGet ?s (getProp (joinFrame ''999999'' ''Bob'') (str ''code'')) = None"
    by (simp add: eval_defs twoHosts_def)
  have j: "?r = Done (stateOf ?r) (framesOf ?r)"
    by (simp add: eval_defs twoHosts_def)
  have ne: "stateOf ?r \<noteq> ?s"
  proof
    assume "stateOf ?r = ?s"
    then have "games (stateOf ?r) (str ''654321'') = games ?s (str ''654321'')" by simp
    then show False by (simp add: eval_defs twoHosts_def)
  qed
  have f: "8 \<notin> usedIds ?s" by (simp add: eval_defs twoHosts_def)
  have o: "sockets ?s 2 = Some OPEN" by (simp add: eval_defs twoHosts_def)
  have cdv: "getProp (joinFrame ''654321'' ''Ann'') (str ''code'') = Some (JStr (str ''654321''))"
    by (simp add: eval_defs)
  have nv: "getProp (joinFrame ''654321'' ''Ann'') (str ''name'') = Some (JStr (str ''Ann''))"
    by (simp add: eval_defs)
  have tn: "take 40 (trim (str ''Ann'')) = str ''Ann''" by (simp add: eval_defs)
  note inst = player_in_one_roster [OF reachable_twoHosts,
      where cd = "str ''123456''" and cd' = "str ''123456''" and g = ?g and g' = ?g and k = 7
        and pl = ann and pl' = ann and sk = 2 and c = ?c
        and m = "joinFrame ''999999'' ''Bob''" and d = "[]" and u = 8
        and m' = "joinFrame ''654321'' ''Ann''" and s' = "stateOf ?r" and out = "framesOf ?r"]
  from inst g a have p1: "id_player ann = 7" by blast
  from inst c t1 u
  have "\<exists>e. onMessage ?s 2 (Some (joinFrame ''999999'' ''Bob'')) [] 8 = Done ?s (send ?s 2 (Error e))"
    by blast
  with o have p2: "\<exists>e. onMessage ?s 2 (Some (joinFrame ''999999'' ''Bob'')) [] 8 =
      Done ?s [(2, Error e)]"
    by (simp add: send_def)
  from inst c t2 j ne f obtain cd0 g0 n where
    e1: "getProp (joinFrame ''654321'' ''Ann'') (str ''code'') = Some (JStr cd0)" and
    e2: "getProp (joinFrame ''654321'' ''Ann'') (str ''name'') = Some (JStr n)" and
    e3: "games ?s cd0 = Some g0" and
    e4: "games (stateOf ?r) = (games ?s)(cd0 \<mapsto> g0\<lparr>players := players g0 @
         [(8, \<lparr>id_player = 8, name = take 40 (trim n), socket = 2, hasVoted = False,
               choiceIndex = None\<rparr>)]\<rparr>)"
    by blast
  from e1 cdv have cd0: "cd0 = str ''654321''" by simp
  from e2 nv have n: "n = str ''Ann''" by simp
  from e3 h cd0 have g0: "g0 = ?h" by simp
  have p3: "games (stateOf ?r) = (games ?s)(str ''654321'' \<mapsto>
        \<lparr>code = str ''654321'', hostId = 30, hostSocket = 3, question = str ''Other'',
         options = [str ''Yes'', str ''No''],
         players = [(8, \<lparr>id_player = 8, name = str ''Ann'', socket = 2, hasVoted = False,
                         choiceIndex = None\<rparr>)],
         state = Lobby\<rparr>)"
    unfolding e4 cd0 n g0 tn by simp
  from g have p4: "map_option players (games ?s (str ''123456'')) = Some [(7, ann)]" by simp
  from p1 p2 p3 p4 show ?thesis by blast
qed

text \<open>
  A connection is not held to one entry, as C9 has it: one that joins twice has two
  roster entries.
\<close>

theorem two_entries_for_one_connection:
  "runs init joinTwice \<and>
   map_option (map (socket \<circ> snd) \<circ> players)
     (games (stateOf (run init joinTwice)) (str ''123456'')) = Some [2, 2] \<and>
   map_option (map fst \<circ> players)
     (games (stateOf (run init joinTwice)) (str ''123456'')) = Some [7, 8]"
  by (simp add: eval_defs joinTwice_def)

subsection \<open>C10: updating a poll\<close>

text \<open>
  C10. A \<^verbatim>\<open>host:update_poll\<close> frame from the host of a session, with a non-empty
  question and an array of strings of which at least two are non-empty after trimming,
  is accepted whatever the state of the session: the question and options are replaced,
  the state becomes lobby, every player's vote is cleared, and after the two replies to
  the host one \<^verbatim>\<open>poll:reset\<close> is written to each roster entry whose socket is open.
\<close>

theorem update_poll_any_state:
  assumes "conns s sk = Some c"
    and "getProp m (str ''type'') = Some (JStr (str ''host:update_poll''))"
    and "role c = Some Host"
    and "currentGame s c = Some (cd, g0)"
    and "getProp m (str ''question'') = Some (JStr q)" and "q \<noteq> []"
    and "getProp m (str ''options'') = Some (JArr xs)"
    and "trimmedOptions xs = Some tos" and "2 \<le> length tos"
  shows "\<exists>s' g out. onMessage s sk (Some m) d u = Done s' out \<and> games s' cd = Some g \<and>
           question g = trim q \<and> options g = tos \<and> state g = Lobby \<and>
           players g = map (\<lambda>(k, pl). (k, pl\<lparr>hasVoted := False, choiceIndex := None\<rparr>)) (players g0) \<and>
           out = send s sk (HostPollUpdated (trim q) tos) @
                 send s sk (HostPlayersUpdated (serializePlayers g)) @
                 map (\<lambda>kp. (socket (snd kp), PollReset))
                   (filter (\<lambda>kp. sockets s (socket (snd kp)) = Some OPEN) (players g0))"
proof -
  let ?g = "resetVotes (g0\<lparr>question := trim q, options := tos, state := Lobby\<rparr>)"
  have len: "2 \<le> length xs"
    using assms(8,9) trimmedOptions_length by fastforce
  have run: "onMessage s sk (Some m) d u =
      Done (setGame s cd ?g)
        (send s sk (HostPollUpdated (question ?g) (options ?g)) @
         send s sk (HostPlayersUpdated (serializePlayers ?g)) @
         broadcastToPlayers s ?g PollReset)"
    using assms len by (simp add: onMessage_update_poll updatePoll_def Let_def)
  have flt: "filter (\<lambda>kp. sockets s (socket (snd kp)) = Some OPEN) (players ?g) =
        map (\<lambda>(k, pl). (k, pl\<lparr>hasVoted := False, choiceIndex := None\<rparr>))
          (filter (\<lambda>kp. sockets s (socket (snd kp)) = Some OPEN) (players g0))"
    by (simp add: resetVotes_def filter_map comp_def case_prod_unfold)
  have bc: "broadcastToPlayers s ?g PollReset =
        map (\<lambda>kp. (socket (snd kp), PollReset))
          (filter (\<lambda>kp. sockets s (socket (snd kp)) = Some OPEN) (players g0))"
    unfolding broadcastToPlayers_eq flt by (simp add: comp_def case_prod_unfold)
  have "games (setGame s cd ?g) cd = Some ?g" by (simp add: setGame_def)
  moreover have "question ?g = trim q" "options ?g = tos" "state ?g = Lobby"
    "players ?g = map (\<lambda>(k, pl). (k, pl\<lparr>hasVoted := False, choiceIndex := None\<rparr>)) (players g0)"
    by (simp_all add: resetVotes_def)
  ultimately show ?thesis using run bc by auto
qed

text \<open>
  The theorem in an active round in which Ann has voted.
\<close>

theorem update_poll_any_state_witness:
  "\<exists>s' g out.
     onMessage (stateOf (run init openRound)) 1
       (Some (pollFrame ''host:update_poll'' ''Next'' [''Yes'', '' '', ''No''])) [] 0 = Done s' out \<and>
     games s' (str ''123456'') = Some g \<and> question g = str ''Next'' \<and>
     options g = [str ''Yes'', str ''No''] \<and> state g = Lobby \<and> players g = [(7, ann)] \<and>
     out = [(1, HostPollUpdated (str ''Next'') [str ''Yes'', str ''No'']),
            (1, HostPlayersUpdated [(7, str ''Ann'', False)]), (2, PollReset)]"
proof -
  let ?s = "stateOf (run init openRound)"
  let ?c = "\<lparr>clientId = 10, role = Some Host, currentGameCode = Some (str ''123456''),
              playerId = None\<rparr>"
  let ?g = "\<lparr>code = str ''123456'', hostId = 10, hostSocket = 1, question = str ''Pick'',
              options = [str ''Red'', str ''Blue''],
              players = [(7, ann\<lparr>hasVoted := True, choiceIndex := Some 0\<rparr>)], state = Active\<rparr>"
  let ?m = "pollFrame ''host:update_poll'' ''Next'' [''Yes'', '' '', ''No'']"
  let ?xs = "map (JStr \<circ> str) [''Yes'', '' '', ''No'']"
  have c: "conns ?s 1 = Some ?c" by (simp add: eval_defs openRound_def voteEv_def)
  have t: "getProp ?m (str ''type'') = Some (JStr (str ''host:update_poll''))"
    by (simp add: eval_defs openRound_def voteEv_def)
  have r: "role ?c = Some Host" by simp
  have g: "currentGame ?s ?c = Some (str ''123456'', ?g)" by (simp add: eval_defs openRound_def voteEv_def)
  have q: "getProp ?m (str ''question'') = Some (JStr (str ''Next''))" by (simp add: eval_defs openRound_def voteEv_def)
  have qn: "str ''Next'' \<noteq> []" by (simp add: str_def)
  have os: "getProp ?m (str ''options'') = Some (JArr ?xs)" by (simp add: eval_defs openRound_def voteEv_def)
  have tos: "trimmedOptions ?xs = Some [str ''Yes'', str ''No'']" by (simp add: eval_defs openRound_def voteEv_def)
  have len: "2 \<le> length [str ''Yes'', str ''No'']" by simp
  have tq: "trim (str ''Next'') = str ''Next''" by (simp add: eval_defs openRound_def voteEv_def)
  have o: "sockets ?s 1 = Some OPEN" "sockets ?s 2 = Some OPEN" by (simp_all add: eval_defs openRound_def voteEv_def)
  from update_poll_any_state [OF c t r g q qn os tos len, of "[]" 0] obtain s' g' out where
    "onMessage ?s 1 (Some ?m) [] 0 = Done s' out" "games s' (str ''123456'') = Some g'"
    "question g' = trim (str ''Next'')" "options g' = [str ''Yes'', str ''No'']" "state g' = Lobby"
    "players g' = map (\<lambda>(k, pl). (k, pl\<lparr>hasVoted := False, choiceIndex := None\<rparr>)) (players ?g)"
    "out = send ?s 1 (HostPollUpdated (trim (str ''Next'')) [str ''Yes'', str ''No'']) @
           send ?s 1 (HostPlayersUpdated (serializePlayers g')) @
           map (\<lambda>kp. (socket (snd kp), PollReset))
             (filter (\<lambda>kp. sockets ?s (socket (snd kp)) = Some OPEN) (players ?g))"
    by blast
  then show ?thesis using tq o
    by (intro exI [of _ s'] exI [of _ g'] exI [of _ out])
       (simp add: send_def serializePlayers_def ann_def)
qed

end
